theory Spec2Isabelle
  imports Complex_Main
begin

section \<open>Tensor elements\<close>

text \<open>
  The functions of \<^verbatim>\<open>pyrad/utils/visualization.py\<close> work on torch tensors of
  floating-point numbers. An element is modelled as a real number or one of the three
  IEEE special values. Arithmetic on finite values is exact: rounding to the nearest
  float, overflow to infinity and the sign of zero are not modelled (the product of
  line 22 is also modelled with rounding, in \<open>apply_colormap_r\<close> below). The special values
  follow IEEE 754: \<open>inf - inf\<close>, \<open>0 * inf\<close>, \<open>0 / 0\<close> and \<open>inf / inf\<close> are NaN, a
  non-zero value divided by zero is an infinity, and NaN propagates. One consequence of
  exact arithmetic: the \<open>1e-10\<close> of line 53 always enlarges the divisor here, while
  float32 absorbs it unless the two planes are very close; an index that lands within
  \<open>1e-7\<close> of an integer can therefore differ by one from the float computation.
\<close>

datatype fval = Fin real | PInf | NInf | NaN

fun is_finite :: "fval \<Rightarrow> bool" where
  "is_finite (Fin x) = True"
| "is_finite PInf = False"
| "is_finite NInf = False"
| "is_finite NaN = False"

fun fneg :: "fval \<Rightarrow> fval" where
  "fneg (Fin x) = Fin (- x)"
| "fneg PInf = NInf"
| "fneg NInf = PInf"
| "fneg NaN = NaN"

fun fadd :: "fval \<Rightarrow> fval \<Rightarrow> fval" where
  "fadd (Fin x) (Fin y) = Fin (x + y)"
| "fadd (Fin x) PInf = PInf"
| "fadd (Fin x) NInf = NInf"
| "fadd PInf (Fin y) = PInf"
| "fadd NInf (Fin y) = NInf"
| "fadd PInf PInf = PInf"
| "fadd NInf NInf = NInf"
| "fadd PInf NInf = NaN"
| "fadd NInf PInf = NaN"
| "fadd NaN b = NaN"
| "fadd a NaN = NaN"

definition fsub :: "fval \<Rightarrow> fval \<Rightarrow> fval" where
  "fsub a b = fadd a (fneg b)"

fun fmul :: "fval \<Rightarrow> fval \<Rightarrow> fval" where
  "fmul (Fin x) (Fin y) = Fin (x * y)"
| "fmul (Fin x) PInf = (if x = 0 then NaN else if 0 < x then PInf else NInf)"
| "fmul (Fin x) NInf = (if x = 0 then NaN else if 0 < x then NInf else PInf)"
| "fmul PInf (Fin y) = (if y = 0 then NaN else if 0 < y then PInf else NInf)"
| "fmul NInf (Fin y) = (if y = 0 then NaN else if 0 < y then NInf else PInf)"
| "fmul PInf PInf = PInf"
| "fmul NInf NInf = PInf"
| "fmul PInf NInf = NInf"
| "fmul NInf PInf = NInf"
| "fmul NaN b = NaN"
| "fmul a NaN = NaN"

fun fdiv :: "fval \<Rightarrow> fval \<Rightarrow> fval" where
  "fdiv (Fin x) (Fin y) =
     (if y = 0 then (if x = 0 then NaN else if 0 < x then PInf else NInf)
      else Fin (x / y))"
| "fdiv (Fin x) PInf = Fin 0"
| "fdiv (Fin x) NInf = Fin 0"
| "fdiv PInf (Fin y) = (if 0 \<le> y then PInf else NInf)"
| "fdiv NInf (Fin y) = (if 0 \<le> y then NInf else PInf)"
| "fdiv PInf PInf = NaN"
| "fdiv PInf NInf = NaN"
| "fdiv NInf PInf = NaN"
| "fdiv NInf NInf = NaN"
| "fdiv NaN b = NaN"
| "fdiv a NaN = NaN"

text \<open>\<^verbatim>\<open>torch.clip(x, lo, hi)\<close> on one element; NaN stays NaN.\<close>

fun fclip :: "real \<Rightarrow> real \<Rightarrow> fval \<Rightarrow> fval" where
  "fclip lo hi (Fin x) = Fin (min (max x lo) hi)"
| "fclip lo hi PInf = Fin hi"
| "fclip lo hi NInf = Fin lo"
| "fclip lo hi NaN = NaN"

text \<open>The smaller and the larger of two elements, as \<^verbatim>\<open>torch.min\<close> and
  \<^verbatim>\<open>torch.max\<close> reduce a float tensor: NaN wins over every value.\<close>

fun fmin2 :: "fval \<Rightarrow> fval \<Rightarrow> fval" where
  "fmin2 (Fin x) (Fin y) = Fin (min x y)"
| "fmin2 (Fin x) PInf = Fin x"
| "fmin2 PInf (Fin y) = Fin y"
| "fmin2 (Fin x) NInf = NInf"
| "fmin2 NInf (Fin y) = NInf"
| "fmin2 PInf PInf = PInf"
| "fmin2 PInf NInf = NInf"
| "fmin2 NInf PInf = NInf"
| "fmin2 NInf NInf = NInf"
| "fmin2 NaN b = NaN"
| "fmin2 a NaN = NaN"

fun fmax2 :: "fval \<Rightarrow> fval \<Rightarrow> fval" where
  "fmax2 (Fin x) (Fin y) = Fin (max x y)"
| "fmax2 (Fin x) NInf = Fin x"
| "fmax2 NInf (Fin y) = Fin y"
| "fmax2 (Fin x) PInf = PInf"
| "fmax2 PInf (Fin y) = PInf"
| "fmax2 PInf PInf = PInf"
| "fmax2 PInf NInf = PInf"
| "fmax2 NInf PInf = PInf"
| "fmax2 NInf NInf = NInf"
| "fmax2 NaN b = NaN"
| "fmax2 a NaN = NaN"

text \<open>
  \<^verbatim>\<open>.long()\<close> converts to a signed 64-bit integer by truncation toward zero. For NaN,
  the infinities and values outside the 64-bit range the conversion is undefined in
  C++; the model returns what the x86-64 conversion instruction returns there (the
  "integer indefinite" value \<open>- 2 ^ 63\<close>), which is the value behind the message
  \<^verbatim>\<open>the min value is -9223372036854775808\<close>.
\<close>

definition INT64_MIN :: int where
  "INT64_MIN = - (2 ^ 63)"

definition INT64_MAX :: int where
  "INT64_MAX = 2 ^ 63 - 1"

definition trunc :: "real \<Rightarrow> int" where
  "trunc x = (if 0 \<le> x then \<lfloor>x\<rfloor> else \<lceil>x\<rceil>)"

fun to_long :: "fval \<Rightarrow> int" where
  "to_long (Fin x) =
     (if INT64_MIN \<le> trunc x \<and> trunc x \<le> INT64_MAX then trunc x else INT64_MIN)"
| "to_long PInf = INT64_MIN"
| "to_long NInf = INT64_MIN"
| "to_long NaN = INT64_MIN"

section \<open>Tensors and errors\<close>

text \<open>
  A tensor is its shape and its elements in row-major order. The exceptions the two
  functions can raise are values: \<open>ValueError\<close> (\<^verbatim>\<open>torch.tensor\<close> on a ragged
  list), \<open>RuntimeError\<close> (a full reduction of an empty tensor, shapes that do not
  broadcast), \<open>IndexError\<close> (an index outside the indexed dimension) and the two
  assertions of \<^verbatim>\<open>apply_colormap\<close>, each carrying the value its message prints.
\<close>

record 'a tensor =
  shape :: "nat list"
  vals :: "'a list"

datatype error =
    ValueError
  | RuntimeError
  | IndexError
  | AssertMin int
  | AssertMax int

definition wf_tensor :: "'a tensor \<Rightarrow> bool" where
  "wf_tensor t = (length (vals t) = prod_list (shape t))"

text \<open>\<^verbatim>\<open>torch.min(t)\<close> and \<^verbatim>\<open>torch.max(t)\<close> over all elements: an empty tensor raises.\<close>

definition torch_min_long :: "int tensor \<Rightarrow> error + int" where
  "torch_min_long t = (if vals t = [] then Inl RuntimeError else Inr (Min (set (vals t))))"

definition torch_max_long :: "int tensor \<Rightarrow> error + int" where
  "torch_max_long t = (if vals t = [] then Inl RuntimeError else Inr (Max (set (vals t))))"

definition torch_min :: "fval tensor \<Rightarrow> error + fval" where
  "torch_min t = (case vals t of [] \<Rightarrow> Inl RuntimeError | x # xs \<Rightarrow> Inr (fold fmin2 xs x))"

definition torch_max :: "fval tensor \<Rightarrow> error + fval" where
  "torch_max t = (case vals t of [] \<Rightarrow> Inl RuntimeError | x # xs \<Rightarrow> Inr (fold fmax2 xs x))"

text \<open>Element-wise operations keep the shape.\<close>

definition tmap :: "('a \<Rightarrow> 'b) \<Rightarrow> 'a tensor \<Rightarrow> 'b tensor" where
  "tmap f t = \<lparr>shape = shape t, vals = map f (vals t)\<rparr>"

text \<open>
  \<^verbatim>\<open>torch.tensor(colormap.colors)\<close>: the colour table of the named colormap is a list of
  rows. It is a parameter of the model (matplotlib is not part of the repository). A
  ragged list raises; an empty list is the tensor of shape \<open>[0]\<close>.
\<close>

definition torch_tensor :: "real list list \<Rightarrow> error + fval tensor" where
  "torch_tensor rows =
     (case rows of
        [] \<Rightarrow> Inr \<lparr>shape = [0], vals = []\<rparr>
      | r # rs \<Rightarrow>
          if list_all (\<lambda>r'. length r' = length r) rs
          then Inr \<lparr>shape = [length rows, length r], vals = map Fin (concat rows)\<rparr>
          else Inl ValueError)"

text \<open>
  \<^verbatim>\<open>t[..., 0]\<close>: the first entry along the last dimension. A tensor without dimensions,
  or with a last dimension of size 0, has no such entry.
\<close>

definition select_last0 :: "'a tensor \<Rightarrow> error + 'a tensor" where
  "select_last0 t =
     (if shape t = [] then Inl IndexError
      else let k = last (shape t) in
        if k = 0 then Inl IndexError
        else Inr \<lparr>shape = butlast (shape t),
                  vals = map (\<lambda>j. vals t ! (j * k)) [0..<length (vals t) div k]\<rparr>)"

text \<open>
  \<^verbatim>\<open>colormap[idx]\<close> with an integer tensor \<open>idx\<close>: every index selects one slice along
  the first dimension of \<open>colormap\<close>; an index counts from the end when negative and
  raises when outside \<open>[-n, n)\<close>. The result has the shape of \<open>idx\<close> followed by the
  remaining dimensions of \<open>colormap\<close>.
\<close>

definition in_bounds :: "nat \<Rightarrow> int \<Rightarrow> bool" where
  "in_bounds n i = (- int n \<le> i \<and> i < int n)"

definition norm_index :: "nat \<Rightarrow> int \<Rightarrow> nat" where
  "norm_index n i = (if i < 0 then nat (i + int n) else nat i)"

definition slice0 :: "'a tensor \<Rightarrow> nat \<Rightarrow> 'a list" where
  "slice0 t i = (let m = prod_list (tl (shape t)) in take m (drop (i * m) (vals t)))"

definition index_first :: "'a tensor \<Rightarrow> int tensor \<Rightarrow> error + 'a tensor" where
  "index_first colormap idx =
     (case shape colormap of
        [] \<Rightarrow> Inl IndexError
      | n # rest \<Rightarrow>
          if list_all (in_bounds n) (vals idx)
          then Inr \<lparr>shape = shape idx @ rest,
                    vals = concat (map (\<lambda>i. slice0 colormap (norm_index n i)) (vals idx))\<rparr>
          else Inl IndexError)"

section \<open>apply_colormap\<close>

text \<open>
  Lines 20 to 27 of the source. \<open>colors\<close> stands for \<^verbatim>\<open>cm.get_cmap(cmap).colors\<close>,
  \<open>img\<close> for the argument \<^verbatim>\<open>image\<close>.
  The first assertion reports the minimum index, the second the maximum index.
\<close>

definition apply_colormap :: "real list list \<Rightarrow> fval tensor \<Rightarrow> error + fval tensor" where
  "apply_colormap colors img =
     (case torch_tensor colors of
        Inl e \<Rightarrow> Inl e
      | Inr colormap \<Rightarrow>
          let image_long = tmap to_long (tmap (\<lambda>v. fmul v (Fin 255)) img) in
          (case torch_min_long image_long of
             Inl e \<Rightarrow> Inl e
           | Inr image_long_min \<Rightarrow>
               (case torch_max_long image_long of
                  Inl e \<Rightarrow> Inl e
                | Inr image_long_max \<Rightarrow>
                    if \<not> 0 \<le> image_long_min then Inl (AssertMin image_long_min)
                    else if \<not> image_long_max \<le> 255 then Inl (AssertMax image_long_max)
                    else (case select_last0 image_long of
                            Inl e \<Rightarrow> Inl e
                          | Inr idx \<Rightarrow> index_first colormap idx))))"

section \<open>Broadcasting\<close>

text \<open>
  Two shapes broadcast when, aligned at their last dimensions (the shorter one padded
  with 1 on the left), every pair of sizes is equal or has a 1; the result takes the
  size that is not 1. A tensor is expanded to the result's shape by repeating it along
  each dimension where it has size 1.
\<close>

definition pad_shape :: "nat \<Rightarrow> nat list \<Rightarrow> nat list" where
  "pad_shape n s = replicate (n - length s) 1 @ s"

definition dims_match :: "nat \<times> nat \<Rightarrow> bool" where
  "dims_match p = (fst p = snd p \<or> fst p = 1 \<or> snd p = 1)"

definition dim_join :: "nat \<times> nat \<Rightarrow> nat" where
  "dim_join p = (if fst p = 1 then snd p else fst p)"

definition broadcast_shapes :: "nat list \<Rightarrow> nat list \<Rightarrow> nat list option" where
  "broadcast_shapes a b =
     (let n = max (length a) (length b); ps = zip (pad_shape n a) (pad_shape n b)
      in if list_all dims_match ps then Some (map dim_join ps) else None)"

fun chunks :: "nat \<Rightarrow> nat \<Rightarrow> 'a list \<Rightarrow> 'a list list" where
  "chunks 0 m xs = []"
| "chunks (Suc a) m xs = take m xs # chunks a m (drop m xs)"

fun expand :: "nat list \<Rightarrow> nat list \<Rightarrow> 'a list \<Rightarrow> 'a list" where
  "expand (a # s) (b # t) xs =
     (let parts = concat (map (expand s t) (chunks a (prod_list s) xs))
      in if a = b then parts else concat (replicate b parts))"
| "expand [] t xs = xs"
| "expand s [] xs = xs"

definition broadcast_to :: "nat list \<Rightarrow> nat list \<Rightarrow> 'a list \<Rightarrow> 'a list" where
  "broadcast_to s t xs = expand (pad_shape (length t) s) t xs"

text \<open>A binary element-wise operation of torch (\<^verbatim>\<open>*\<close>, \<^verbatim>\<open>+\<close>) on two tensors.\<close>

definition broadcast_op ::
  "(fval \<Rightarrow> fval \<Rightarrow> fval) \<Rightarrow> fval tensor \<Rightarrow> fval tensor \<Rightarrow> error + fval tensor" where
  "broadcast_op f a b =
     (case broadcast_shapes (shape a) (shape b) of
        None \<Rightarrow> Inl RuntimeError
      | Some s \<Rightarrow>
          Inr \<lparr>shape = s,
               vals = map2 f (broadcast_to (shape a) s (vals a))
                             (broadcast_to (shape b) s (vals b))\<rparr>)"

section \<open>apply_depth_colormap\<close>

text \<open>
  Python's \<^verbatim>\<open>x or y\<close> on an optional float: \<open>None\<close> and zero are falsy (NaN is
  truthy), and \<open>y\<close> is evaluated only when \<open>x\<close> is falsy, so an error of \<open>y\<close> is
  raised only then.
\<close>

definition truthy :: "fval \<Rightarrow> bool" where
  "truthy v = (v \<noteq> Fin 0)"

definition py_or :: "fval option \<Rightarrow> error + fval \<Rightarrow> error + fval" where
  "py_or x y = (case x of None \<Rightarrow> y | Some v \<Rightarrow> if truthy v then Inr v else y)"

text \<open>Lines 50 and 51: the planes the normalization uses.\<close>

definition near_plane_used :: "fval tensor \<Rightarrow> fval option \<Rightarrow> error + fval" where
  "near_plane_used depth near_plane = py_or near_plane (torch_min depth)"

definition far_plane_used :: "fval tensor \<Rightarrow> fval option \<Rightarrow> error + fval" where
  "far_plane_used depth far_plane = py_or far_plane (torch_max depth)"

definition epsilon :: real where
  "epsilon = 1 / 10 ^ 10"

text \<open>Lines 53 and 54: normalize and clip.\<close>

definition normalize_depth :: "fval \<Rightarrow> fval \<Rightarrow> fval tensor \<Rightarrow> fval tensor" where
  "normalize_depth near far depth =
     tmap (fclip 0 1)
       (tmap (\<lambda>d. fdiv (fsub d near) (fadd (fsub far near) (Fin epsilon))) depth)"

text \<open>Line 60: \<^verbatim>\<open>colored_image * accumulation + (1 - accumulation)\<close>.\<close>

definition blend :: "fval tensor \<Rightarrow> fval tensor \<Rightarrow> error + fval tensor" where
  "blend colored_image accumulation =
     (case broadcast_op fmul colored_image accumulation of
        Inl e \<Rightarrow> Inl e
      | Inr weighted \<Rightarrow>
          broadcast_op fadd weighted (tmap (\<lambda>a. fsub (Fin 1) a) accumulation))"

definition apply_depth_colormap ::
  "real list list \<Rightarrow> fval tensor \<Rightarrow> fval tensor option \<Rightarrow> fval option \<Rightarrow> fval option
     \<Rightarrow> error + fval tensor" where
  "apply_depth_colormap colors depth accumulation near_plane far_plane =
     (case near_plane_used depth near_plane of
        Inl e \<Rightarrow> Inl e
      | Inr near \<Rightarrow>
          (case far_plane_used depth far_plane of
             Inl e \<Rightarrow> Inl e
           | Inr far \<Rightarrow>
               (case apply_colormap colors (normalize_depth near far depth) of
                  Inl e \<Rightarrow> Inl e
                | Inr colored_image \<Rightarrow>
                    (case accumulation of
                       None \<Rightarrow> Inr colored_image
                     | Some acc \<Rightarrow> blend colored_image acc))))"

section \<open>The colour table and the pixels of an image\<close>

text \<open>
  Modelled from the spec: the colour lookup table of a named colormap, which matplotlib
  supplies, is "an ordered sequence of 256 RGB triples (floating-point, range [0,1])".
\<close>

definition valid_table :: "real list list \<Rightarrow> bool" where
  "valid_table colors = (length colors = 256 \<and> list_all (\<lambda>r. length r = 3) colors)"

definition unit_range_table :: "real list list \<Rightarrow> bool" where
  "unit_range_table colors = list_all (list_all (\<lambda>c. 0 \<le> c \<and> c \<le> 1)) colors"

text \<open>The index line 22 computes for one element: \<^verbatim>\<open>(v * 255).long()\<close>.\<close>

definition color_index :: "fval \<Rightarrow> int" where
  "color_index v = to_long (fmul v (Fin 255))"

text \<open>The \<open>k\<close>-th entry along the leading dimensions: the \<open>k\<close>-th pixel of an image.\<close>

definition pixel :: "'a tensor \<Rightarrow> nat \<Rightarrow> 'a list" where
  "pixel t k = (let c = last (shape t) in take c (drop (k * c) (vals t)))"

definition in_unit :: "fval \<Rightarrow> bool" where
  "in_unit v = (case v of Fin x \<Rightarrow> 0 \<le> x \<and> x \<le> 1 | _ \<Rightarrow> False)"

text \<open>An element in the open interval between \<open>-1/255\<close> and 0.\<close>

definition small_negative :: "fval \<Rightarrow> bool" where
  "small_negative v = (case v of Fin x \<Rightarrow> - 1 / 255 < x \<and> x < 0 | _ \<Rightarrow> False)"

text \<open>One element of line 60: the colour \<open>c\<close> over white with weight \<open>a\<close>.\<close>

definition blend_value :: "fval \<Rightarrow> fval \<Rightarrow> fval" where
  "blend_value c a = fadd (fmul c a) (fsub (Fin 1) a)"

text \<open>\<^verbatim>\<open>torch.full_like(t, v)\<close>: the tensor of the shape of \<open>t\<close> with every element \<open>v\<close>
  (\<^verbatim>\<open>ones_like\<close>, \<^verbatim>\<open>zeros_like\<close>).\<close>

definition full_like :: "'a tensor \<Rightarrow> 'b \<Rightarrow> 'b tensor" where
  "full_like t v = \<lparr>shape = shape t, vals = replicate (length (vals t)) v\<rparr>"

section \<open>Rounding to a floating-point format\<close>

text \<open>
  The tensors of the source hold binary floating-point numbers, and the product of
  line 22 is rounded to the format of the tensor. A format is given by the number
  \<open>p\<close> of bits of its significand: 8 for bfloat16, 11 for float16, 24 for float32 and
  53 for float64. \<open>fl_round p x\<close> is the number with a \<open>p\<close>-bit significand nearest to
  \<open>x\<close>, ties to the even significand (the IEEE 754 default). The exponent is not
  bounded: overflow and subnormal numbers are not modelled. The values the statements
  below depend on (the levels \<open>i / 255\<close>, the products near them and near \<open>-1\<close>) are
  normal numbers of all four formats.
\<close>

definition rne :: "real \<Rightarrow> int" where
  "rne y = (let f = \<lfloor>y\<rfloor>; d = y - of_int f
            in if d < 1 / 2 then f else if 1 / 2 < d then f + 1
               else if even f then f else f + 1)"

text \<open>Rounding a number whose exponent is \<open>e\<close>: to a multiple of \<open>2 powi (e - p + 1)\<close>.\<close>

definition fl_round_at :: "nat \<Rightarrow> int \<Rightarrow> real \<Rightarrow> real" where
  "fl_round_at p e x = of_int (rne (x / 2 powi (e - int p + 1))) * 2 powi (e - int p + 1)"

definition fl_round :: "nat \<Rightarrow> real \<Rightarrow> real" where
  "fl_round p x = (if x = 0 then 0 else fl_round_at p \<lfloor>log 2 \<bar>x\<bar>\<rfloor> x)"

text \<open>The exponent of a number between \<open>1/256\<close> and \<open>256\<close>, found by comparison.\<close>

definition binade_exp :: "real \<Rightarrow> int" where
  "binade_exp a =
     (if 128 \<le> a then 7 else if 64 \<le> a then 6 else if 32 \<le> a then 5 else if 16 \<le> a then 4
      else if 8 \<le> a then 3 else if 4 \<le> a then 2 else if 2 \<le> a then 1 else if 1 \<le> a then 0
      else if 1 / 2 \<le> a then - 1 else if 1 / 4 \<le> a then - 2 else if 1 / 8 \<le> a then - 3
      else if 1 / 16 \<le> a then - 4 else if 1 / 32 \<le> a then - 5 else if 1 / 64 \<le> a then - 6
      else if 1 / 128 \<le> a then - 7 else - 8)"

text \<open>An element that is a number of the format with rounding \<open>rnd\<close>, or a special value.\<close>

definition has_format :: "(real \<Rightarrow> real) \<Rightarrow> fval \<Rightarrow> bool" where
  "has_format rnd v = (case v of Fin x \<Rightarrow> rnd x = x | _ \<Rightarrow> True)"

text \<open>
  \<^verbatim>\<open>image * 255\<close> of line 22 on one element of a tensor whose format rounds with
  \<open>rnd\<close>: the exact product, rounded. With the identity for \<open>rnd\<close> this is the exact
  product \<open>fmul v (Fin 255)\<close>.
\<close>

definition scaled :: "(real \<Rightarrow> real) \<Rightarrow> fval \<Rightarrow> fval" where
  "scaled rnd v = (case fmul v (Fin 255) of Fin y \<Rightarrow> Fin (rnd y) | w \<Rightarrow> w)"

text \<open>The index line 22 computes for one element of such a tensor.\<close>

definition color_index_r :: "(real \<Rightarrow> real) \<Rightarrow> fval \<Rightarrow> int" where
  "color_index_r rnd v = to_long (scaled rnd v)"

text \<open>
  Lines 20 to 27 of the source on a tensor whose format rounds with \<open>rnd\<close>: as
  \<open>apply_colormap\<close>, with the product of line 22 rounded.
\<close>

definition apply_colormap_r ::
  "(real \<Rightarrow> real) \<Rightarrow> real list list \<Rightarrow> fval tensor \<Rightarrow> error + fval tensor" where
  "apply_colormap_r rnd colors img =
     (case torch_tensor colors of
        Inl e \<Rightarrow> Inl e
      | Inr colormap \<Rightarrow>
          let image_long = tmap to_long (tmap (scaled rnd) img) in
          (case torch_min_long image_long of
             Inl e \<Rightarrow> Inl e
           | Inr image_long_min \<Rightarrow>
               (case torch_max_long image_long of
                  Inl e \<Rightarrow> Inl e
                | Inr image_long_max \<Rightarrow>
                    if \<not> 0 \<le> image_long_min then Inl (AssertMin image_long_min)
                    else if \<not> image_long_max \<le> 255 then Inl (AssertMax image_long_max)
                    else (case select_last0 image_long of
                            Inl e \<Rightarrow> Inl e
                          | Inr idx \<Rightarrow> index_first colormap idx))))"

section \<open>The functions on a store\<close>

text \<open>
  For the question whether a call changes its arguments, tensors live in a store: a list
  of tensors, a tensor's address its position. Every torch operation the two functions
  use (\<^verbatim>\<open>*\<close>, \<^verbatim>\<open>-\<close>, \<^verbatim>\<open>/\<close>, \<^verbatim>\<open>+\<close>, \<^verbatim>\<open>torch.clip\<close>, \<^verbatim>\<open>torch.tensor\<close>,
  indexing with an index tensor) returns a new tensor, which \<open>alloc\<close> appends; none of
  them is an in-place operation, and line 53 rebinds the local name \<^verbatim>\<open>depth\<close> only.
  The integer tensors of \<^verbatim>\<open>apply_colormap\<close> and the two planes are temporaries and are
  kept as values. A call returns the address of its result, or the error, and the store
  it leaves.
\<close>

type_synonym addr = nat
type_synonym store = "fval tensor list"

definition alloc :: "store \<Rightarrow> fval tensor \<Rightarrow> addr \<times> store" where
  "alloc s t = (length s, s @ [t])"

text \<open>Lines 20 to 27 on a store; \<open>img\<close> is the address of the argument \<^verbatim>\<open>image\<close>.\<close>

definition st_apply_colormap ::
  "store \<Rightarrow> real list list \<Rightarrow> addr \<Rightarrow> (error + addr) \<times> store" where
  "st_apply_colormap s colors img =
     (case torch_tensor colors of
        Inl e \<Rightarrow> (Inl e, s)
      | Inr table \<Rightarrow>
          let (colormap, s1) = alloc s table;
              (scaled, s2) = alloc s1 (tmap (\<lambda>v. fmul v (Fin 255)) (s1 ! img));
              image_long = tmap to_long (s2 ! scaled)
          in (case torch_min_long image_long of
                Inl e \<Rightarrow> (Inl e, s2)
              | Inr image_long_min \<Rightarrow>
                  (case torch_max_long image_long of
                     Inl e \<Rightarrow> (Inl e, s2)
                   | Inr image_long_max \<Rightarrow>
                       if \<not> 0 \<le> image_long_min then (Inl (AssertMin image_long_min), s2)
                       else if \<not> image_long_max \<le> 255 then (Inl (AssertMax image_long_max), s2)
                       else (case select_last0 image_long of
                               Inl e \<Rightarrow> (Inl e, s2)
                             | Inr idx \<Rightarrow>
                                 (case index_first (s2 ! colormap) idx of
                                    Inl e \<Rightarrow> (Inl e, s2)
                                  | Inr colored \<Rightarrow>
                                      (case alloc s2 colored of (r, s3) \<Rightarrow> (Inr r, s3)))))))"

text \<open>Line 60 on a store.\<close>

definition st_blend :: "store \<Rightarrow> addr \<Rightarrow> addr \<Rightarrow> (error + addr) \<times> store" where
  "st_blend s colored_image accumulation =
     (case broadcast_op fmul (s ! colored_image) (s ! accumulation) of
        Inl e \<Rightarrow> (Inl e, s)
      | Inr w \<Rightarrow>
          let (weighted, s1) = alloc s w;
              (inverse, s2) = alloc s1 (tmap (\<lambda>a. fsub (Fin 1) a) (s1 ! accumulation))
          in (case broadcast_op fadd (s2 ! weighted) (s2 ! inverse) of
                Inl e \<Rightarrow> (Inl e, s2)
              | Inr b \<Rightarrow> (case alloc s2 b of (r, s3) \<Rightarrow> (Inr r, s3))))"

text \<open>Lines 50 to 62 on a store.\<close>

definition st_apply_depth_colormap ::
  "store \<Rightarrow> real list list \<Rightarrow> addr \<Rightarrow> addr option \<Rightarrow> fval option \<Rightarrow> fval option
     \<Rightarrow> (error + addr) \<times> store" where
  "st_apply_depth_colormap s colors depth accumulation near_plane far_plane =
     (case near_plane_used (s ! depth) near_plane of
        Inl e \<Rightarrow> (Inl e, s)
      | Inr near \<Rightarrow>
          (case far_plane_used (s ! depth) far_plane of
             Inl e \<Rightarrow> (Inl e, s)
           | Inr far \<Rightarrow>
               let (shifted, s1) = alloc s (tmap (\<lambda>d. fsub d near) (s ! depth));
                   divisor = fadd (fsub far near) (Fin epsilon);
                   (depth1, s2) = alloc s1 (tmap (\<lambda>d. fdiv d divisor) (s1 ! shifted));
                   (depth2, s3) = alloc s2 (tmap (fclip 0 1) (s2 ! depth1))
               in (case st_apply_colormap s3 colors depth2 of
                     (Inl e, s4) \<Rightarrow> (Inl e, s4)
                   | (Inr colored_image, s4) \<Rightarrow>
                       (case accumulation of
                          None \<Rightarrow> (Inr colored_image, s4)
                        | Some acc \<Rightarrow> st_blend s4 colored_image acc))))"


text \<open>A colour table for concrete runs: 256 rows, row \<open>i\<close> the grey level \<open>i / 255\<close>.\<close>

definition gray_table :: "real list list" where
  "gray_table = map (\<lambda>i. [real i / 255, real i / 255, real i / 255]) [0..<256]"

section \<open>Facts about the operations\<close>

lemma gray_table_length: "length gray_table = 256"
  by (simp add: gray_table_def)

lemma take_drop_concat_row:
  "list_all (\<lambda>r. length r = c) rows \<Longrightarrow> i < length rows \<Longrightarrow>
     take c (drop (i * c) (concat rows)) = rows ! i"
proof (induction rows arbitrary: i)
  case Nil
  then show ?case by simp
next
  case (Cons r rows)
  show ?case
  proof (cases i)
    case 0
    with Cons.prems show ?thesis by simp
  next
    case (Suc j)
    with Cons.prems have "j < length rows" and "length r = c" and "list_all (\<lambda>r. length r = c) rows"
      by simp_all
    with Cons.IH[of j] Suc show ?thesis by simp
  qed
qed

lemma length_concat_rows:
  "list_all (\<lambda>r. length r = c) rows \<Longrightarrow> length (concat rows) = length rows * c"
  by (induction rows) simp_all

lemma torch_tensor_valid:
  "valid_table colors \<Longrightarrow>
     torch_tensor colors = Inr \<lparr>shape = [256, 3], vals = map Fin (concat colors)\<rparr>"
  by (cases colors) (auto simp: valid_table_def torch_tensor_def list_all_iff)

lemma slice0_valid:
  assumes "valid_table colors" "i < 256"
  shows "slice0 \<lparr>shape = [256, 3], vals = map Fin (concat colors)\<rparr> i = map Fin (colors ! i)"
proof -
  from assms have "take 3 (drop (i * 3) (concat colors)) = colors ! i"
    by (intro take_drop_concat_row) (simp_all add: valid_table_def)
  then show ?thesis
    by (simp add: slice0_def take_map drop_map)
qed

lemma select_last0_one:
  "shape t = lead @ [1] \<Longrightarrow> select_last0 t = Inr \<lparr>shape = lead, vals = vals t\<rparr>"
  by (simp add: select_last0_def map_nth)

lemma index_first_table:
  assumes "valid_table colors" and "list_all (\<lambda>i. 0 \<le> i \<and> i \<le> 255) (vals idx)"
  shows "index_first \<lparr>shape = [256, 3], vals = map Fin (concat colors)\<rparr> idx =
           Inr \<lparr>shape = shape idx @ [3],
                vals = concat (map (\<lambda>i. map Fin (colors ! nat i)) (vals idx))\<rparr>"
proof -
  from assms(2) have b: "list_all (in_bounds 256) (vals idx)"
    by (auto simp add: list_all_iff in_bounds_def)
  have eq: "map (\<lambda>i. slice0 \<lparr>shape = [256, 3], vals = map Fin (concat colors)\<rparr> (norm_index 256 i)) (vals idx)
        = map (\<lambda>i. map Fin (colors ! nat i)) (vals idx)"
  proof (rule map_cong[OF refl])
    fix i assume "i \<in> set (vals idx)"
    with assms(2) have "0 \<le> i" "i \<le> 255" by (simp_all add: list_all_iff)
    then have "norm_index 256 i = nat i" "nat i < 256" by (simp_all add: norm_index_def)
    then show "slice0 \<lparr>shape = [256, 3], vals = map Fin (concat colors)\<rparr> (norm_index 256 i)
                 = map Fin (colors ! nat i)"
      using slice0_valid[OF assms(1)] by simp
  qed
  show ?thesis unfolding index_first_def using b by (simp add: eq)
qed

lemma apply_colormap_unfold:
  assumes "valid_table colors" and "shape img = lead @ [1]"
  shows "apply_colormap colors img =
     (if vals img = [] then Inl RuntimeError
      else if Min (set (map color_index (vals img))) < 0
        then Inl (AssertMin (Min (set (map color_index (vals img)))))
      else if 255 < Max (set (map color_index (vals img)))
        then Inl (AssertMax (Max (set (map color_index (vals img)))))
      else Inr \<lparr>shape = lead @ [3],
                vals = concat (map (\<lambda>v. map Fin (colors ! nat (color_index v))) (vals img))\<rparr>)"
proof -
  let ?il = "tmap to_long (tmap (\<lambda>v. fmul v (Fin 255)) img)"
  have vil: "vals ?il = map color_index (vals img)"
    by (simp add: tmap_def color_index_def)
  have sil: "shape ?il = lead @ [1]"
    using assms(2) by (simp add: tmap_def)
  have sel: "select_last0 ?il = Inr \<lparr>shape = lead, vals = map color_index (vals img)\<rparr>"
    using select_last0_one[OF sil] vil by simp
  define mn where "mn = Min (set (map color_index (vals img)))"
  define mx where "mx = Max (set (map color_index (vals img)))"
  have tt: "torch_tensor colors = Inr \<lparr>shape = [256, 3], vals = map Fin (concat colors)\<rparr>"
    by (rule torch_tensor_valid[OF assms(1)])
  show ?thesis
  proof (cases "vals img = []")
    case True
    then show ?thesis
      by (simp add: apply_colormap_def tt torch_min_long_def vil Let_def)
  next
    case ne: False
    have tmn: "torch_min_long ?il = Inr mn" and tmx: "torch_max_long ?il = Inr mx"
      using ne by (simp_all add: torch_min_long_def torch_max_long_def vil mn_def mx_def)
    have unf: "apply_colormap colors img =
        (if \<not> 0 \<le> mn then Inl (AssertMin mn)
         else if \<not> mx \<le> 255 then Inl (AssertMax mx)
         else index_first \<lparr>shape = [256, 3], vals = map Fin (concat colors)\<rparr>
                \<lparr>shape = lead, vals = map color_index (vals img)\<rparr>)"
      unfolding apply_colormap_def Let_def tt tmn tmx sel by simp
    have idx: "0 \<le> mn \<Longrightarrow> mx \<le> 255 \<Longrightarrow>
               index_first \<lparr>shape = [256, 3], vals = map Fin (concat colors)\<rparr>
                   \<lparr>shape = lead, vals = map color_index (vals img)\<rparr>
                 = Inr \<lparr>shape = lead @ [3],
                      vals = concat (map (\<lambda>v. map Fin (colors ! nat (color_index v))) (vals img))\<rparr>"
    proof -
      assume "0 \<le> mn" "mx \<le> 255"
      then have "list_all (\<lambda>i. 0 \<le> i \<and> i \<le> 255) (map color_index (vals img))"
        using ne unfolding mn_def mx_def by (auto simp: list_all_iff)
      then show ?thesis
        using index_first_table[OF assms(1), of "\<lparr>shape = lead, vals = map color_index (vals img)\<rparr>"]
        by (simp add: comp_def)
    qed
    have goal: "apply_colormap colors img =
        (if mn < 0 then Inl (AssertMin mn)
         else if 255 < mx then Inl (AssertMax mx)
         else Inr \<lparr>shape = lead @ [3],
                vals = concat (map (\<lambda>v. map Fin (colors ! nat (color_index v))) (vals img))\<rparr>)"
      using unf idx by (simp add: not_le not_less)
    show ?thesis
      apply (subst if_not_P[OF ne])
      unfolding mn_def[symmetric] mx_def[symmetric]
      by (rule goal)
  qed
qed

lemma color_index_Fin: "color_index (Fin x) = to_long (Fin (x * 255))"
  by (simp add: color_index_def)

lemma to_long_small:
  assumes "- 1 < y" "y < 256"
  shows "to_long (Fin y) = trunc y" "0 \<le> trunc y" "trunc y \<le> 255"
proof -
  have a: "0 \<le> trunc y"
    using assms by (auto simp: trunc_def le_ceiling_iff)
  have b: "trunc y \<le> 255"
  proof (cases "0 \<le> y")
    case True
    then have "\<lfloor>y\<rfloor> < 256" using assms by (simp add: floor_less_iff)
    with True show ?thesis by (simp add: trunc_def)
  next
    case False
    then have "\<lceil>y\<rceil> \<le> 0" by (simp add: ceiling_le_iff)
    with False show ?thesis by (simp add: trunc_def)
  qed
  show "0 \<le> trunc y" by (rule a)
  show "trunc y \<le> 255" by (rule b)
  show "to_long (Fin y) = trunc y"
    using a b by (simp add: INT64_MIN_def INT64_MAX_def)
qed

lemma color_index_unit:
  assumes "0 \<le> x" "x \<le> 1"
  shows "0 \<le> color_index (Fin x)" "color_index (Fin x) \<le> 255"
proof -
  have "- 1 < x * 255" "x * 255 < 256" using assms by simp_all
  from to_long_small[OF this] show "0 \<le> color_index (Fin x)" "color_index (Fin x) \<le> 255"
    by (simp_all add: color_index_Fin)
qed

lemma color_index_in_unit:
  "in_unit v \<Longrightarrow> 0 \<le> color_index v \<and> color_index v \<le> 255"
  by (cases v) (simp_all add: in_unit_def color_index_unit)

lemma color_index_outside:
  assumes "x * 255 \<le> - 1 \<or> 256 \<le> x * 255"
  shows "color_index (Fin x) < 0 \<or> 255 < color_index (Fin x)"
proof -
  have t: "trunc (x * 255) < 0 \<or> 255 < trunc (x * 255)"
  proof (cases "x * 255 \<le> - 1")
    case True
    then have "\<lceil>x * 255\<rceil> \<le> - 1" by (simp add: ceiling_le_iff)
    with True show ?thesis by (simp add: trunc_def)
  next
    case False
    with assms have h: "256 \<le> x * 255" by simp
    then have "256 \<le> \<lfloor>x * 255\<rfloor>" by (simp add: le_floor_iff)
    with h show ?thesis by (simp add: trunc_def)
  qed
  show ?thesis
    using t by (auto simp: color_index_Fin INT64_MIN_def INT64_MAX_def)
qed

lemma apply_colormap_Inr_iff:
  assumes "valid_table colors" and "shape img = lead @ [1]"
  shows "apply_colormap colors img = Inr out \<longleftrightarrow>
     vals img \<noteq> [] \<and> list_all (\<lambda>v. 0 \<le> color_index v \<and> color_index v \<le> 255) (vals img)
     \<and> out = \<lparr>shape = lead @ [3],
               vals = concat (map (\<lambda>v. map Fin (colors ! nat (color_index v))) (vals img))\<rparr>"
proof (cases "vals img = []")
  case True
  then show ?thesis by (simp add: apply_colormap_unfold[OF assms])
next
  case False
  then have "0 \<le> Min (set (map color_index (vals img))) \<and> Max (set (map color_index (vals img))) \<le> 255
     \<longleftrightarrow> list_all (\<lambda>v. 0 \<le> color_index v \<and> color_index v \<le> 255) (vals img)"
    by (auto simp: list_all_iff)
  then show ?thesis
    using False unfolding apply_colormap_unfold[OF assms]
    by (auto simp only: if_False not_less not_le split: if_splits)
qed

lemma valid_gray_table: "valid_table gray_table"
  by (simp add: valid_table_def gray_table_def list_all_iff)

lemma gray_table_nth: "i < 256 \<Longrightarrow> gray_table ! i = [real i / 255, real i / 255, real i / 255]"
  by (simp add: gray_table_def)

lemma pixel_of_rows:
  assumes "list_all (\<lambda>r. length r = c) rows" "k < length rows"
  shows "pixel \<lparr>shape = lead @ [c], vals = concat rows\<rparr> k = rows ! k"
  using take_drop_concat_row[OF assms] by (simp add: pixel_def)

lemma table_row_length:
  "valid_table colors \<Longrightarrow> 0 \<le> i \<Longrightarrow> i \<le> 255 \<Longrightarrow> length (colors ! nat i) = 3"
  by (simp add: valid_table_def list_all_length)


lemma wf_colored:
  "wf_tensor img \<Longrightarrow> shape img = lead @ [1] \<Longrightarrow> list_all (\<lambda>r. length r = c) (map f (vals img)) \<Longrightarrow>
     wf_tensor \<lparr>shape = lead @ [c], vals = concat (map f (vals img))\<rparr>"
  using length_concat_rows[of c "map f (vals img)"] by (simp add: wf_tensor_def)

lemma fold_fmin2_Fin: "fold fmin2 (map Fin xs) (Fin x) = Fin (fold min xs x)"
  by (induction xs arbitrary: x) (simp_all add: min.commute)

lemma fold_fmax2_Fin: "fold fmax2 (map Fin xs) (Fin x) = Fin (fold max xs x)"
  by (induction xs arbitrary: x) (simp_all add: max.commute)

lemma torch_min_Fin:
  "vals depth = map Fin (x # xs) \<Longrightarrow> torch_min depth = Inr (Fin (Min (set (x # xs))))"
  using Min.set_eq_fold[of x xs] by (simp add: torch_min_def fold_fmin2_Fin)

lemma torch_max_Fin:
  "vals depth = map Fin (x # xs) \<Longrightarrow> torch_max depth = Inr (Fin (Max (set (x # xs))))"
  using Max.set_eq_fold[of x xs] by (simp add: torch_max_def fold_fmax2_Fin)

lemma apply_depth_colormap_planes:
  "near_plane_used depth near_plane = Inr near \<Longrightarrow> far_plane_used depth far_plane = Inr far \<Longrightarrow>
     apply_depth_colormap colors depth None near_plane far_plane
       = apply_colormap colors (normalize_depth near far depth)"
  by (simp add: apply_depth_colormap_def split: sum.splits)

lemma vals_normalize:
  "vals (normalize_depth near far depth)
     = map (\<lambda>d. fclip 0 1 (fdiv (fsub d near) (fadd (fsub far near) (Fin epsilon)))) (vals depth)"
  by (simp add: normalize_depth_def tmap_def)

lemma shape_normalize: "shape (normalize_depth near far depth) = shape depth"
  by (simp add: normalize_depth_def tmap_def)

lemma in_unit_fclip: "v \<noteq> NaN \<Longrightarrow> in_unit (fclip 0 1 v)"
  by (cases v) (simp_all add: in_unit_def)

lemma epsilon_pos: "0 < epsilon"
  by (simp add: epsilon_def)


lemma normalize_equal_planes:
  assumes "list_all is_finite (vals depth)"
  shows "list_all in_unit (vals (normalize_depth (Fin p) (Fin p) depth))"
proof -
  have "in_unit (fclip 0 1 (fdiv (fsub d (Fin p)) (fadd (fsub (Fin p) (Fin p)) (Fin epsilon))))"
    if "is_finite d" for d
  proof -
    from that obtain x where d: "d = Fin x" by (cases d) simp_all
    have "fdiv (fsub d (Fin p)) (fadd (fsub (Fin p) (Fin p)) (Fin epsilon)) = Fin ((x - p) / epsilon)"
      using epsilon_pos by (simp add: d fsub_def)
    then show ?thesis by (simp add: in_unit_def)
  qed
  with assms show ?thesis
    by (simp add: vals_normalize list_all_iff)
qed

lemma finite_colored:
  "list_all is_finite (concat (map (\<lambda>v. map Fin (f v)) xs))"
  by (auto simp: list_all_iff)

subsection \<open>Broadcasting and blending\<close>

lemma length_chunks: "length (chunks a m xs) = a"
  by (induction a arbitrary: xs) simp_all

lemma concat_chunks: "length xs = a * m \<Longrightarrow> concat (chunks a m xs) = xs"
  by (induction a arbitrary: xs) simp_all

lemma chunks_lengths:
  "length xs = a * m \<Longrightarrow> c \<in> set (chunks a m xs) \<Longrightarrow> length c = m"
proof (induction a arbitrary: xs)
  case 0
  then show ?case by simp
next
  case (Suc a)
  from Suc.prems(2) have "c = take m xs \<or> c \<in> set (chunks a m (drop m xs))" by simp
  then show ?case
  proof
    assume "c = take m xs"
    with Suc.prems(1) show ?thesis by simp
  next
    assume c: "c \<in> set (chunks a m (drop m xs))"
    have "length (drop m xs) = a * m" using Suc.prems(1) by simp
    from Suc.IH[OF this c] show ?thesis .
  qed
qed


lemma chunks_map: "chunks a m (map f xs) = map (map f) (chunks a m xs)"
  by (induction a arbitrary: xs) (simp_all add: take_map drop_map)

lemma expand_same: "length xs = prod_list s \<Longrightarrow> expand s s xs = xs"
proof (induction s arbitrary: xs)
  case Nil
  then show ?case by simp
next
  case (Cons a s)
  have len: "length xs = a * prod_list s" using Cons.prems by simp
  have "map (expand s s) (chunks a (prod_list s) xs) = chunks a (prod_list s) xs"
  proof (rule map_idI)
    fix c assume "c \<in> set (chunks a (prod_list s) xs)"
    then have "length c = prod_list s" by (rule chunks_lengths[OF len])
    then show "expand s s c = c" by (rule Cons.IH)
  qed
  then show ?case by (simp add: concat_chunks[OF len])
qed


lemma expand_map: "expand s t (map f xs) = map f (expand s t xs)"
proof (induction s t xs rule: expand.induct)
  case (1 a s b t xs)
  have "map (expand s t) (chunks a (prod_list s) (map f xs))
        = map (map f) (map (expand s t) (chunks a (prod_list s) xs))"
    using "1.IH" by (simp add: chunks_map)
  then show ?case
    by (simp add: Let_def map_concat map_replicate)
qed simp_all

lemma length_expand:
  "list_all2 (\<lambda>a b. a = b \<or> a = 1) s t \<Longrightarrow> length xs = prod_list s \<Longrightarrow>
     length (expand s t xs) = prod_list t"
proof (induction s t arbitrary: xs rule: list_all2_induct)
  case Nil
  then show ?case by simp
next
  case (Cons a s b t)
  have len: "length xs = a * prod_list s" using Cons.prems by simp
  let ?parts = "map (expand s t) (chunks a (prod_list s) xs)"
  have each: "length p = prod_list t" if "p \<in> set ?parts" for p
  proof -
    from that obtain c where c: "c \<in> set (chunks a (prod_list s) xs)" and p: "p = expand s t c"
      by auto
    from chunks_lengths[OF len c] show ?thesis unfolding p by (rule Cons.IH)
  qed
  have "list_all (\<lambda>p. length p = prod_list t) ?parts"
    using each unfolding list_all_iff by blast
  then have "length (concat ?parts) = length ?parts * prod_list t"
    by (rule length_concat_rows)
  then have lp: "length (concat ?parts) = a * prod_list t"
    by (simp add: length_chunks)
  show ?case
  proof (cases "a = b")
    case True
    with lp show ?thesis by (simp add: Let_def)
  next
    case False
    with Cons.hyps have "a = 1" by simp
    with lp False show ?thesis by (simp add: Let_def length_concat sum_list_replicate)
  qed
qed

lemma length_pad_shape: "length s \<le> n \<Longrightarrow> length (pad_shape n s) = n"
  by (simp add: pad_shape_def)

lemma pad_shape_same: "pad_shape (length s) s = s"
  by (simp add: pad_shape_def)

lemma prod_list_pad_shape: "prod_list (pad_shape n s) = prod_list s"
  by (simp add: pad_shape_def)

lemma dim_join_facts:
  assumes "length A = length B" and "list_all dims_match (zip A B)"
  shows "list_all dims_match (zip (map dim_join (zip A B)) B)"
    and "map dim_join (zip (map dim_join (zip A B)) B) = map dim_join (zip A B)"
    and "list_all2 (\<lambda>x y. x = y \<or> x = 1) A (map dim_join (zip A B))"
    and "list_all2 (\<lambda>x y. x = y \<or> x = 1) B (map dim_join (zip A B))"
  using assms
  by (induction A B rule: list_induct2) (auto simp: dims_match_def dim_join_def)

lemma broadcast_shapes_Some:
  assumes "broadcast_shapes a b = Some t"
  shows "length t = max (length a) (length b)"
    and "list_all2 (\<lambda>x y. x = y \<or> x = 1) (pad_shape (length t) a) t"
    and "list_all2 (\<lambda>x y. x = y \<or> x = 1) (pad_shape (length t) b) t"
    and "broadcast_shapes t b = Some t"
proof -
  define n where "n = max (length a) (length b)"
  define A where "A = pad_shape n a"
  define B where "B = pad_shape n b"
  have lA: "length A = n" and lB: "length B = n"
    unfolding A_def B_def n_def by (simp_all add: length_pad_shape)
  from assms have m: "list_all dims_match (zip A B)" and t: "t = map dim_join (zip A B)"
    unfolding broadcast_shapes_def Let_def A_def B_def n_def by (auto split: if_splits)
  have lt: "length t = n" unfolding t using lA lB by simp
  show "length t = max (length a) (length b)" using lt n_def by simp
  have AB: "length A = length B" using lA lB by simp
  from dim_join_facts(3)[OF AB m] have cA: "list_all2 (\<lambda>x y. x = y \<or> x = 1) A t"
    unfolding t .
  from dim_join_facts(4)[OF AB m] have cB: "list_all2 (\<lambda>x y. x = y \<or> x = 1) B t"
    unfolding t .
  show "list_all2 (\<lambda>x y. x = y \<or> x = 1) (pad_shape (length t) a) t"
    unfolding lt A_def[symmetric] by (rule cA)
  show "list_all2 (\<lambda>x y. x = y \<or> x = 1) (pad_shape (length t) b) t"
    unfolding lt B_def[symmetric] by (rule cB)
  have mx: "max (length t) (length b) = n" using lt n_def by simp
  have pt: "pad_shape n t = t" using pad_shape_same[of t] lt by simp
  show "broadcast_shapes t b = Some t"
    unfolding broadcast_shapes_def Let_def mx pt
    using dim_join_facts(1,2)[OF AB m] unfolding t[symmetric] B_def[symmetric] by simp
qed

lemma length_broadcast_to:
  assumes "list_all2 (\<lambda>x y. x = y \<or> x = 1) (pad_shape (length t) s) t"
    and "length xs = prod_list s"
  shows "length (broadcast_to s t xs) = prod_list t"
  unfolding broadcast_to_def
  using assms by (intro length_expand) (simp_all add: prod_list_pad_shape)

lemma broadcast_to_same: "length xs = prod_list t \<Longrightarrow> broadcast_to t t xs = xs"
  by (simp add: broadcast_to_def pad_shape_same expand_same)


lemma broadcast_to_map: "broadcast_to s t (map f xs) = map f (broadcast_to s t xs)"
  by (simp add: broadcast_to_def expand_map)

lemma map2_fuse:
  "length xs = length ys \<Longrightarrow>
     map2 f (map2 g xs ys) (map h ys) = map2 (\<lambda>x y. f (g x y) (h y)) xs ys"
  by (induction xs ys rule: list_induct2) simp_all

lemma blend_unfold:
  assumes "wf_tensor colored" and "wf_tensor acc"
  shows "blend colored acc =
     (case broadcast_shapes (shape colored) (shape acc) of
        None \<Rightarrow> Inl RuntimeError
      | Some t \<Rightarrow> Inr \<lparr>shape = t,
                       vals = map2 blend_value (broadcast_to (shape colored) t (vals colored))
                                               (broadcast_to (shape acc) t (vals acc))\<rparr>)"
proof (cases "broadcast_shapes (shape colored) (shape acc)")
  case None
  then show ?thesis by (simp add: blend_def broadcast_op_def)
next
  case (Some t)
  let ?c = "broadcast_to (shape colored) t (vals colored)"
  let ?a = "broadcast_to (shape acc) t (vals acc)"
  note bs = broadcast_shapes_Some[OF Some]
  have lc: "length ?c = prod_list t"
    using bs(2) assms(1) by (intro length_broadcast_to) (simp_all add: wf_tensor_def)
  have la: "length ?a = prod_list t"
    using bs(3) assms(2) by (intro length_broadcast_to) (simp_all add: wf_tensor_def)
  have w: "broadcast_op fmul colored acc = Inr \<lparr>shape = t, vals = map2 fmul ?c ?a\<rparr>"
    by (simp add: broadcast_op_def Some)
  have lw: "length (map2 fmul ?c ?a) = prod_list t" using lc la by simp
  have s1: "broadcast_to t t (map2 fmul ?c ?a) = map2 fmul ?c ?a"
    by (rule broadcast_to_same[OF lw])
  have s2: "broadcast_to (shape acc) t (map (\<lambda>a. fsub (Fin 1) a) (vals acc))
              = map (\<lambda>a. fsub (Fin 1) a) ?a"
    by (rule broadcast_to_map)
  have "broadcast_op fadd \<lparr>shape = t, vals = map2 fmul ?c ?a\<rparr> (tmap (\<lambda>a. fsub (Fin 1) a) acc)
        = Inr \<lparr>shape = t, vals = map2 fadd (map2 fmul ?c ?a) (map (\<lambda>a. fsub (Fin 1) a) ?a)\<rparr>"
    by (simp add: broadcast_op_def tmap_def bs(4) s1 s2)
  also have "map2 fadd (map2 fmul ?c ?a) (map (\<lambda>a. fsub (Fin 1) a) ?a) = map2 blend_value ?c ?a"
    using lc la by (simp add: map2_fuse blend_value_def[abs_def])
  finally show ?thesis
    by (simp add: blend_def w Some)
qed


lemma colored_wf:
  assumes "valid_table colors" and "shape img = lead @ [1]" and "wf_tensor img"
    and "apply_colormap colors img = Inr out"
  shows "wf_tensor out" and "shape out = lead @ [3]"
    and "list_all is_finite (vals out)"
    and "unit_range_table colors \<Longrightarrow> list_all in_unit (vals out)"
proof -
  let ?f = "\<lambda>v. map Fin (colors ! nat (color_index v))"
  from assms(4) have rng: "list_all (\<lambda>v. 0 \<le> color_index v \<and> color_index v \<le> 255) (vals img)"
    and out: "out = \<lparr>shape = lead @ [3], vals = concat (map ?f (vals img))\<rparr>"
    unfolding apply_colormap_Inr_iff[OF assms(1,2)] by simp_all
  have len: "list_all (\<lambda>r. length r = 3) (map ?f (vals img))"
    using rng table_row_length[OF assms(1)] by (auto simp: list_all_iff)
  show "shape out = lead @ [3]" by (simp add: out)
  show "wf_tensor out"
    using length_concat_rows[OF len] assms(2,3) by (simp add: out wf_tensor_def)
  show "list_all is_finite (vals out)" by (simp add: out finite_colored)
  show "list_all in_unit (vals out)" if u: "unit_range_table colors"
  proof -
    have "in_unit (Fin c)" if v: "v \<in> set (vals img)" and c: "c \<in> set (colors ! nat (color_index v))" for v c
    proof -
      from rng v have "0 \<le> color_index v" "color_index v \<le> 255" by (simp_all add: list_all_iff)
      then have "nat (color_index v) < length colors" using assms(1) by (simp add: valid_table_def)
      then have "colors ! nat (color_index v) \<in> set colors" by simp
      with u c show ?thesis by (auto simp: unit_range_table_def list_all_iff in_unit_def)
    qed
    then show ?thesis by (auto simp: out list_all_iff)
  qed
qed





lemma concat_replicate_single: "concat (replicate k [y]) = replicate k y"
  by (induction k) simp_all

lemma concat_map_concat_map:
  "concat (map (\<lambda>c. concat (map f c)) xss) = concat (map f (concat xss))"
  by (induction xss) simp_all

lemma expand_last:
  "length ys = prod_list L \<Longrightarrow> expand (L @ [1]) (L @ [k]) ys = concat (map (replicate k) ys)"
proof (induction L arbitrary: ys)
  case Nil
  then obtain y where ys: "ys = [y]" by (cases ys) simp_all
  have one: "chunks 1 1 [y] = [[y]]" 
    using chunks.simps(2)[of 0 1 "[y]"] by simp
  show ?case
    by (auto simp add: ys one concat_replicate_single Let_def)
next
  case (Cons a L)
  have len: "length ys = a * prod_list L" using Cons.prems by simp
  have eq: "map (expand (L @ [1]) (L @ [k])) (chunks a (prod_list L) ys)
        = map (\<lambda>c. concat (map (replicate k) c)) (chunks a (prod_list L) ys)"
  proof (rule map_cong[OF refl])
    fix c assume "c \<in> set (chunks a (prod_list L) ys)"
    from chunks_lengths[OF len this] have "length c = prod_list L" .
    then show "expand (L @ [1]) (L @ [k]) c = concat (map (replicate k) c)" by (rule Cons.IH)
  qed
  have "expand ((a # L) @ [1]) ((a # L) @ [k]) ys
        = concat (map (expand (L @ [1]) (L @ [k])) (chunks a (prod_list L) ys))"
    by (simp add: Let_def)
  also have "\<dots> = concat (map (\<lambda>c. concat (map (replicate k) c)) (chunks a (prod_list L) ys))"
    by (simp only: eq)
  also have "\<dots> = concat (map (replicate k) (concat (chunks a (prod_list L) ys)))"
    by (rule concat_map_concat_map)
  also have "\<dots> = concat (map (replicate k) ys)"
    by (simp only: concat_chunks[OF len])
  finally show ?case .
qed

lemma dims_zip_same:
  "list_all dims_match (zip L L)" "map dim_join (zip L L) = L"
  by (induction L) (simp_all add: dims_match_def dim_join_def)

lemma broadcast_shapes_last: "broadcast_shapes (L @ [k]) (L @ [1]) = Some (L @ [k])"
  by (simp add: broadcast_shapes_def pad_shape_def dims_zip_same dims_match_def dim_join_def)

lemma blend_pixelwise:
  assumes "wf_tensor colored" and "wf_tensor acc"
    and "shape colored = L @ [k]" and "shape acc = L @ [1]"
  shows "blend colored acc
           = Inr \<lparr>shape = L @ [k],
                  vals = map2 blend_value (vals colored) (concat (map (replicate k) (vals acc)))\<rparr>"
proof -
  have la: "length (vals acc) = prod_list L"
    using assms(2,4) by (simp add: wf_tensor_def)
  have lc: "length (vals colored) = prod_list (L @ [k])"
    using assms(1,3) by (simp add: wf_tensor_def)
  have a: "broadcast_to (L @ [1]) (L @ [k]) (vals acc) = concat (map (replicate k) (vals acc))"
    using expand_last[OF la, of k] by (simp add: broadcast_to_def pad_shape_def)
  have c: "broadcast_to (L @ [k]) (L @ [k]) (vals colored) = vals colored"
    by (rule broadcast_to_same[OF lc])
  show ?thesis
    unfolding blend_unfold[OF assms(1,2)] assms(3,4) broadcast_shapes_last
    by (simp only: option.case a c)
qed


lemma blend_value_one: "blend_value c (Fin 1) = c"
  by (cases c) (simp_all add: blend_value_def fsub_def)

lemma blend_value_zero: "is_finite c \<Longrightarrow> blend_value c (Fin 0) = Fin 1"
  by (cases c) (simp_all add: blend_value_def fsub_def)

lemma map2_replicate: "length xs = n \<Longrightarrow> map2 f xs (replicate n v) = map (\<lambda>x. f x v) xs"
  by (induction xs arbitrary: n) auto

lemma concat_replicate_replicate:
  "concat (replicate n (replicate k v)) = replicate (n * k) v"
  by (induction n) (simp_all add: replicate_add)

lemma depth_colored_facts:
  assumes "valid_table colors" and "shape depth = lead @ [1]" and "wf_tensor depth"
    and "apply_depth_colormap colors depth None near_plane far_plane = Inr colored"
  shows "wf_tensor colored" and "shape colored = lead @ [3]" and "list_all is_finite (vals colored)"
proof -
  from assms(4) obtain near far where
    col: "apply_colormap colors (normalize_depth near far depth) = Inr colored"
    unfolding apply_depth_colormap_def by (auto split: sum.splits)
  have sh: "shape (normalize_depth near far depth) = lead @ [1]"
    using assms(2) by (simp add: shape_normalize)
  have wf: "wf_tensor (normalize_depth near far depth)"
    using assms(3) by (simp add: wf_tensor_def shape_normalize vals_normalize)
  note c = colored_wf[OF assms(1) sh wf col]
  show "wf_tensor colored" by (rule c(1))
  show "shape colored = lead @ [3]" by (rule c(2))
  show "list_all is_finite (vals colored)" by (rule c(3))
qed

lemma apply_depth_colormap_mask:
  assumes "valid_table colors" and "shape depth = lead @ [1]" and "wf_tensor depth"
    and "wf_tensor acc" and "shape acc = lead @ [1]"
  shows "apply_depth_colormap colors depth (Some acc) near_plane far_plane =
     (case apply_depth_colormap colors depth None near_plane far_plane of
        Inl e \<Rightarrow> Inl e
      | Inr colored \<Rightarrow>
          Inr \<lparr>shape = lead @ [3],
               vals = map2 blend_value (vals colored) (concat (map (replicate 3) (vals acc)))\<rparr>)"
proof (cases "apply_depth_colormap colors depth None near_plane far_plane")
  case (Inl e)
  then have "apply_depth_colormap colors depth (Some acc) near_plane far_plane = Inl e"
    unfolding apply_depth_colormap_def by (auto split: sum.splits)
  with Inl show ?thesis by simp
next
  case (Inr colored)
  note f = depth_colored_facts[OF assms(1,2,3) Inr]
  from Inr have "apply_depth_colormap colors depth (Some acc) near_plane far_plane
                   = blend colored acc"
    unfolding apply_depth_colormap_def by (auto split: sum.splits)
  also have "\<dots> = Inr \<lparr>shape = lead @ [3],
               vals = map2 blend_value (vals colored) (concat (map (replicate 3) (vals acc)))\<rparr>"
    by (rule blend_pixelwise[OF f(1) assms(4) f(2) assms(5)])
  finally show ?thesis using Inr by simp
qed


lemma planes_given:
  "v \<noteq> Fin 0 \<Longrightarrow> near_plane_used depth (Some v) = Inr v"
  "v \<noteq> Fin 0 \<Longrightarrow> far_plane_used depth (Some v) = Inr v"
  by (simp_all add: near_plane_used_def far_plane_used_def py_or_def truthy_def)

lemma apply_colormap_by_index:
  assumes "valid_table colors" and "shape img = lead @ [1]"
    and "map color_index (vals img) = idx"
  shows "apply_colormap colors img =
     (if idx = [] then Inl RuntimeError
      else if Min (set idx) < 0 then Inl (AssertMin (Min (set idx)))
      else if 255 < Max (set idx) then Inl (AssertMax (Max (set idx)))
      else Inr \<lparr>shape = lead @ [3], vals = concat (map (\<lambda>i. map Fin (colors ! nat i)) idx)\<rparr>)"
proof -
  have e: "vals img = [] \<longleftrightarrow> idx = []" using assms(3) by auto
  have c: "map (\<lambda>v. map Fin (colors ! nat (color_index v))) (vals img)
           = map (\<lambda>i. map Fin (colors ! nat i)) idx"
    unfolding assms(3)[symmetric] by (simp add: comp_def)
  show ?thesis
    unfolding apply_colormap_unfold[OF assms(1,2)] e c assms(3) by (rule refl)
qed

lemma sample_run:
  "apply_depth_colormap gray_table \<lparr>shape = [2, 1], vals = [Fin (1 / 2), Fin (3 / 4)]\<rparr>
      None (Some (Fin (- 1))) (Some (Fin 1))
   = Inr \<lparr>shape = [2, 3],
          vals = [Fin (191 / 255), Fin (191 / 255), Fin (191 / 255),
                  Fin (223 / 255), Fin (223 / 255), Fin (223 / 255)]\<rparr>"
proof -
  let ?d = "\<lparr>shape = [2, 1], vals = [Fin (1 / 2), Fin (3 / 4)]\<rparr>"
  have n: "near_plane_used ?d (Some (Fin (- 1))) = Inr (Fin (- 1))"
    by (simp add: planes_given)
  have f: "far_plane_used ?d (Some (Fin 1)) = Inr (Fin 1)"
    by (simp add: planes_given)
  have sh: "shape (normalize_depth (Fin (- 1)) (Fin 1) ?d) = [2] @ [1]"
    by (simp add: shape_normalize)
  have v: "map color_index (vals (normalize_depth (Fin (- 1)) (Fin 1) ?d)) = [191, 223]"
    by (simp add: vals_normalize fsub_def epsilon_def color_index_def trunc_def
        INT64_MIN_def INT64_MAX_def)
  show ?thesis
    unfolding apply_depth_colormap_planes[OF n f]
      apply_colormap_by_index[OF valid_gray_table sh v]
    by (simp add: gray_table_nth)
qed

subsection \<open>The functions on a store compute the functions on values\<close>

lemma st_apply_colormap_eq:
  assumes "img < length s"
  shows "st_apply_colormap s colors img =
     (case torch_tensor colors of
        Inl e \<Rightarrow> (Inl e, s)
      | Inr table \<Rightarrow>
          (case apply_colormap colors (s ! img) of
             Inl e \<Rightarrow> (Inl e, s @ [table, tmap (\<lambda>v. fmul v (Fin 255)) (s ! img)])
           | Inr colored \<Rightarrow>
               (Inr (length s + 2),
                s @ [table, tmap (\<lambda>v. fmul v (Fin 255)) (s ! img), colored])))"
  using assms
  by (simp add: st_apply_colormap_def apply_colormap_def alloc_def Let_def nth_append
      split: sum.splits)

lemma st_blend_eq:
  assumes "colored_image < length s" and "accumulation < length s"
  shows "st_blend s colored_image accumulation =
     (case broadcast_op fmul (s ! colored_image) (s ! accumulation) of
        Inl e \<Rightarrow> (Inl e, s)
      | Inr w \<Rightarrow>
          (case blend (s ! colored_image) (s ! accumulation) of
             Inl e \<Rightarrow> (Inl e, s @ [w, tmap (\<lambda>a. fsub (Fin 1) a) (s ! accumulation)])
           | Inr b \<Rightarrow>
               (Inr (length s + 2),
                s @ [w, tmap (\<lambda>a. fsub (Fin 1) a) (s ! accumulation), b])))"
  using assms
  by (simp add: st_blend_def blend_def alloc_def Let_def nth_append split: sum.splits)

lemma normalize_depth_steps:
  "tmap (fclip 0 1) (tmap (\<lambda>d. fdiv d (fadd (fsub far near) (Fin epsilon))) (tmap (\<lambda>d. fsub d near) t))
     = normalize_depth near far t"
  by (simp add: normalize_depth_def tmap_def)

lemma apply_colormap_ValueError:
  "torch_tensor colors = Inl e \<Longrightarrow> apply_colormap colors img = Inl e"
  by (simp add: apply_colormap_def)

lemma st_apply_depth_colormap_eq:
  assumes "depth < length s"
    and "case accumulation of None \<Rightarrow> True | Some a \<Rightarrow> a < length s"
  shows "\<exists>ext. st_apply_depth_colormap s colors depth accumulation near_plane far_plane
           = (case apply_depth_colormap colors (s ! depth) (map_option ((!) s) accumulation)
                     near_plane far_plane of
                Inl e \<Rightarrow> (Inl e, s @ ext)
              | Inr colored \<Rightarrow> (Inr (length s + length ext), s @ ext @ [colored]))"
proof (cases "near_plane_used (s ! depth) near_plane")
  case (Inl e)
  then show ?thesis
    by (intro exI[of _ "[]"]) (simp add: st_apply_depth_colormap_def apply_depth_colormap_def)
next
  case near: (Inr near)
  show ?thesis
  proof (cases "far_plane_used (s ! depth) far_plane")
    case (Inl e)
    with near show ?thesis
      by (intro exI[of _ "[]"]) (simp add: st_apply_depth_colormap_def apply_depth_colormap_def)
  next
    case far: (Inr far)
    let ?t1 = "tmap (\<lambda>d. fsub d near) (s ! depth)"
    let ?t2 = "tmap (\<lambda>d. fdiv d (fadd (fsub far near) (Fin epsilon))) ?t1"
    let ?n = "normalize_depth near far (s ! depth)"
    let ?s3 = "s @ [?t1, ?t2, ?n]"
    have step: "st_apply_depth_colormap s colors depth accumulation near_plane far_plane
      = (case st_apply_colormap ?s3 colors (length s + 2) of
           (Inl e, s4) \<Rightarrow> (Inl e, s4)
         | (Inr colored_image, s4) \<Rightarrow>
             (case accumulation of
                None \<Rightarrow> (Inr colored_image, s4)
              | Some acc \<Rightarrow> st_blend s4 colored_image acc))"
      using assms(1)
      by (simp add: st_apply_depth_colormap_def near far alloc_def Let_def nth_append
          normalize_depth_steps)
    have pure: "apply_depth_colormap colors (s ! depth) (map_option ((!) s) accumulation)
                   near_plane far_plane
      = (case apply_colormap colors ?n of
           Inl e \<Rightarrow> Inl e
         | Inr colored_image \<Rightarrow>
             (case accumulation of
                None \<Rightarrow> Inr colored_image
              | Some acc \<Rightarrow> blend colored_image (s ! acc)))"
      by (simp add: apply_depth_colormap_def near far split: sum.splits option.splits)
    have in3: "length s + 2 < length ?s3" by simp
    have rd: "?s3 ! (length s + 2) = ?n" by (simp add: nth_append)
    note cm = st_apply_colormap_eq[OF in3, of colors, unfolded rd]
    show ?thesis
    proof (cases "torch_tensor colors")
      case (Inl e)
      then show ?thesis
        unfolding step pure cm
        by (intro exI[of _ "[?t1, ?t2, ?n]"]) (simp add: apply_colormap_ValueError)
    next
      case table: (Inr table)
      let ?scaled = "tmap (\<lambda>v. fmul v (Fin 255)) ?n"
      show ?thesis
      proof (cases "apply_colormap colors ?n")
        case (Inl e)
        then show ?thesis
          unfolding step pure cm table
          by (intro exI[of _ "[?t1, ?t2, ?n, table, ?scaled]"]) simp
      next
        case colored: (Inr colored)
        let ?s4 = "?s3 @ [table, ?scaled, colored]"
        show ?thesis
        proof (cases accumulation)
          case None
          then show ?thesis
            unfolding None step[unfolded None] pure[unfolded None] cm table colored
            by (intro exI[of _ "[?t1, ?t2, ?n, table, ?scaled]"]) simp
        next
          case (Some acc)
          with assms(2) have acc: "acc < length s" by simp
          let ?s4 = "s @ [?t1, ?t2, ?n, table, ?scaled, colored]"
          let ?inv = "tmap (\<lambda>a. fsub (Fin 1) a) (s ! acc)"
          have e1: "st_apply_depth_colormap s colors depth accumulation near_plane far_plane
                      = st_blend ?s4 (length s + 5) acc"
            unfolding Some step[unfolded Some] cm table colored by (simp add: eval_nat_numeral)
          have c4: "length s + 5 < length ?s4" and a4: "acc < length ?s4"
            using acc by simp_all
          have rc: "?s4 ! (length s + 5) = colored" by (simp add: nth_append)
          have ra: "?s4 ! acc = s ! acc" using acc by (simp add: nth_append)
          have l4: "length ?s4 + 2 = length s + 8" by simp
          note e2 = st_blend_eq[OF c4 a4, unfolded rc ra l4]
          have e3: "apply_depth_colormap colors (s ! depth) (map_option ((!) s) accumulation)
                      near_plane far_plane = blend colored (s ! acc)"
            unfolding Some pure[unfolded Some] colored by simp
          show ?thesis
          proof (cases "broadcast_op fmul colored (s ! acc)")
            case (Inl e)
            then have "blend colored (s ! acc) = Inl e" by (simp add: blend_def)
            with Inl show ?thesis
              unfolding e1 e2 e3
              by (intro exI[of _ "[?t1, ?t2, ?n, table, ?scaled, colored]"]) simp
          next
            case w: (Inr w)
            show ?thesis
            proof (cases "blend colored (s ! acc)")
              case (Inl e)
              with w show ?thesis
                unfolding e1 e2 e3
                by (intro exI[of _ "[?t1, ?t2, ?n, table, ?scaled, colored, w, ?inv]"]) simp
            next
              case (Inr b)
              with w show ?thesis
                unfolding e1 e2 e3
                by (intro exI[of _ "[?t1, ?t2, ?n, table, ?scaled, colored, w, ?inv]"]) simp
            qed
          qed
        qed
      qed
    qed
  qed
qed

lemma st_apply_colormap_ext:
  assumes "img < length s"
  shows "\<exists>ext. st_apply_colormap s colors img
           = (case apply_colormap colors (s ! img) of
                Inl e \<Rightarrow> (Inl e, s @ ext)
              | Inr colored \<Rightarrow> (Inr (length s + length ext), s @ ext @ [colored]))"
proof (cases "torch_tensor colors")
  case (Inl e)
  then show ?thesis
    unfolding st_apply_colormap_eq[OF assms]
    by (intro exI[of _ "[]"]) (simp add: apply_colormap_ValueError)
next
  case (Inr table)
  then show ?thesis
    unfolding st_apply_colormap_eq[OF assms]
    by (intro exI[of _ "[table, tmap (\<lambda>v. fmul v (Fin 255)) (s ! img)]"])
      (simp split: sum.splits)
qed

lemma store_extension:
  assumes "R = (case P of Inl e \<Rightarrow> (Inl e, s @ ext)
                | Inr c \<Rightarrow> (Inr (length s + length ext), s @ ext @ [c]))"
  shows "take (length s) (snd R) = s"
    and "\<forall>r. fst R = Inr r \<longrightarrow> length s \<le> r \<and> r < length (snd R)"
    and "(case fst R of Inl e \<Rightarrow> Inl e | Inr r \<Rightarrow> Inr (snd R ! r)) = P"
  unfolding assms by (cases P; simp add: nth_append)+

lemma st_apply_colormap_refines:
  assumes "img < length s"
  shows "(case fst (st_apply_colormap s colors img) of
            Inl e \<Rightarrow> Inl e
          | Inr r \<Rightarrow> Inr (snd (st_apply_colormap s colors img) ! r))
         = apply_colormap colors (s ! img)"
proof -
  from st_apply_colormap_ext[OF assms, of colors] obtain ext where
    "st_apply_colormap s colors img
       = (case apply_colormap colors (s ! img) of
            Inl e \<Rightarrow> (Inl e, s @ ext)
          | Inr colored \<Rightarrow> (Inr (length s + length ext), s @ ext @ [colored]))" ..
  from store_extension(3)[OF this] show ?thesis .
qed

lemma st_apply_depth_colormap_refines:
  assumes "depth < length s"
    and "case accumulation of None \<Rightarrow> True | Some a \<Rightarrow> a < length s"
  shows "(case fst (st_apply_depth_colormap s colors depth accumulation near_plane far_plane) of
            Inl e \<Rightarrow> Inl e
          | Inr r \<Rightarrow>
              Inr (snd (st_apply_depth_colormap s colors depth accumulation near_plane far_plane) ! r))
         = apply_depth_colormap colors (s ! depth) (map_option ((!) s) accumulation)
             near_plane far_plane"
proof -
  from st_apply_depth_colormap_eq[OF assms, of colors near_plane far_plane] obtain ext where
    "st_apply_depth_colormap s colors depth accumulation near_plane far_plane
       = (case apply_depth_colormap colors (s ! depth) (map_option ((!) s) accumulation)
               near_plane far_plane of
            Inl e \<Rightarrow> (Inl e, s @ ext)
          | Inr colored \<Rightarrow> (Inr (length s + length ext), s @ ext @ [colored]))" ..
  from store_extension(3)[OF this] show ?thesis .
qed




lemma normalize_depth_explicit:
  "normalize_depth near far depth
     = \<lparr>shape = shape depth,
        vals = map (\<lambda>d. fclip 0 1 (fdiv (fsub d near) (fadd (fsub far near) (Fin (1 / 10 ^ 10)))))
                 (vals depth)\<rparr>"
  by (simp add: normalize_depth_def tmap_def epsilon_def)

lemma normalize_depth_reals:
  assumes "vals depth = map Fin xs" and "f - n + 1 / 10 ^ 10 \<noteq> 0"
  shows "normalize_depth (Fin n) (Fin f) depth
     = \<lparr>shape = shape depth,
        vals = map (\<lambda>x. Fin (min (max ((x - n) / (f - n + 1 / 10 ^ 10)) 0) 1)) xs\<rparr>"
  using assms(2) by (simp add: normalize_depth_explicit assms(1) fsub_def comp_def)

subsection \<open>Rounding\<close>

lemma powr_powi_2: "(2::real) powr real_of_int e = 2 powi e"
  by (rule powr_real_of_int') simp_all

lemma floor_log2_eq:
  assumes "2 powi e \<le> \<bar>x\<bar>" and "\<bar>x\<bar> < 2 powi (e + 1)"
  shows "\<lfloor>log 2 \<bar>x\<bar>\<rfloor> = e"
proof -
  have "(0::real) < 2 powi e" by (simp add: zero_less_power_int)
  with assms(1) have pos: "0 < \<bar>x\<bar>" by linarith
  show ?thesis
    using floor_log_eq_powr_iff[of "\<bar>x\<bar>" 2 e] pos assms
    by (simp only: powr_powi_2)
qed

lemma floor_log2_bounds:
  assumes "x \<noteq> 0"
  shows "2 powi \<lfloor>log 2 \<bar>x\<bar>\<rfloor> \<le> \<bar>x\<bar>" and "\<bar>x\<bar> < 2 powi (\<lfloor>log 2 \<bar>x\<bar>\<rfloor> + 1)"
proof -
  have pos: "0 < \<bar>x\<bar>" using assms by simp
  have "2 powr real_of_int \<lfloor>log 2 \<bar>x\<bar>\<rfloor> \<le> \<bar>x\<bar>
        \<and> \<bar>x\<bar> < 2 powr real_of_int (\<lfloor>log 2 \<bar>x\<bar>\<rfloor> + 1)"
    using floor_log_eq_powr_iff[of "\<bar>x\<bar>" 2 "\<lfloor>log 2 \<bar>x\<bar>\<rfloor>"] pos by simp
  then show "2 powi \<lfloor>log 2 \<bar>x\<bar>\<rfloor> \<le> \<bar>x\<bar>" and "\<bar>x\<bar> < 2 powi (\<lfloor>log 2 \<bar>x\<bar>\<rfloor> + 1)"
    by (simp_all only: powr_powi_2)
qed

lemma fl_round_at_eq:
  assumes "2 powi e \<le> \<bar>x\<bar>" and "\<bar>x\<bar> < 2 powi (e + 1)"
  shows "fl_round p x = fl_round_at p e x"
proof -
  have "(0::real) < 2 powi e" by (simp add: zero_less_power_int)
  with assms(1) have "0 < \<bar>x\<bar>" by linarith
  then have "x \<noteq> 0" by simp
  then show ?thesis
    by (simp add: fl_round_def floor_log2_eq[OF assms])
qed

lemma fl_round_binade:
  assumes "1 / 256 \<le> \<bar>x\<bar>" and "\<bar>x\<bar> < 256"
  shows "fl_round p x = fl_round_at p (binade_exp \<bar>x\<bar>) x"
proof (rule fl_round_at_eq)
  show "2 powi binade_exp \<bar>x\<bar> \<le> \<bar>x\<bar>"
    using assms by (simp add: binade_exp_def)
  show "\<bar>x\<bar> < 2 powi (binade_exp \<bar>x\<bar> + 1)"
    using assms by (simp add: binade_exp_def)
qed

lemma rne_le: "y \<le> of_int n \<Longrightarrow> rne y \<le> n"
proof -
  assume a: "y \<le> of_int n"
  show ?thesis
  proof (cases "y = of_int n")
    case True
    then show ?thesis by (simp add: rne_def)
  next
    case False
    with a have "y < of_int n" by simp
    then have "\<lfloor>y\<rfloor> < n" by (simp add: floor_less_iff)
    then show ?thesis by (simp add: rne_def Let_def)
  qed
qed

lemma rne_ge: "of_int n \<le> y \<Longrightarrow> n \<le> rne y"
proof -
  assume "of_int n \<le> y"
  then have "n \<le> \<lfloor>y\<rfloor>" by (simp add: le_floor_iff)
  then show ?thesis by (simp add: rne_def Let_def)
qed

lemma fl_round_0: "fl_round p 0 = 0"
  by (simp add: fl_round_def)

lemma fl_round_nonpos:
  assumes "x \<le> 0"
  shows "fl_round p x \<le> 0"
proof (cases "x = 0")
  case True
  then show ?thesis by (simp add: fl_round_def)
next
  case False
  define q :: real where "q = 2 powi (\<lfloor>log 2 \<bar>x\<bar>\<rfloor> - int p + 1)"
  have q: "0 < q" by (simp add: q_def zero_less_power_int)
  then have "x / q \<le> of_int 0" using assms by (simp add: divide_nonpos_pos)
  then have "rne (x / q) \<le> 0" by (rule rne_le)
  then have "of_int (rne (x / q)) * q \<le> 0"
    using q by (simp add: mult_nonpos_nonneg)
  then show ?thesis using False by (simp add: fl_round_def fl_round_at_def q_def)
qed

lemma exponent_below:
  assumes "2 powi e \<le> (a::real)" and "a < 2 powi m"
  shows "e < m"
proof (rule ccontr)
  assume "\<not> e < m"
  then have "m \<le> e" by simp
  then have "(2::real) powi m \<le> 2 powi e" by (rule power_int_increasing) simp
  with assms show False by linarith
qed

lemma fl_round_gt_minus_one:
  assumes "0 < p" and "- (1 - 1 / 2 ^ p) \<le> x" and "x \<le> 0"
  shows "- 1 < fl_round p x"
proof (cases "x = 0")
  case True
  then show ?thesis by (simp add: fl_round_def)
next
  case False
  define e where "e = \<lfloor>log 2 \<bar>x\<bar>\<rfloor>"
  define q :: real where "q = 2 powi (e - int p + 1)"
  have b1: "2 powi e \<le> \<bar>x\<bar>" and b2: "\<bar>x\<bar> < 2 powi (e + 1)"
    using floor_log2_bounds[OF False] by (simp_all add: e_def)
  have q: "0 < q" by (simp add: q_def zero_less_power_int)
  have fl: "fl_round p x = of_int (rne (x / q)) * q"
    using False by (simp add: fl_round_def fl_round_at_def q_def e_def)
  have pp: "(0::real) < 2 ^ p" by simp
  have pq: "0 < 1 / (2::real) ^ p" by simp
  have "\<bar>x\<bar> < 1" using assms(2,3) pq by linarith
  then have "\<bar>x\<bar> < 2 powi 0" by simp
  from exponent_below[OF b1 this] have e0: "e < 0" .
  show ?thesis
  proof (cases "e = - 1")
    case True
    have "q = 2 powi (- int p)" by (simp add: q_def True)
    also have "\<dots> = inverse (2 powi int p)" by (rule power_int_minus)
    also have "\<dots> = 1 / 2 ^ p" by (simp add: inverse_eq_divide)
    finally have qv: "q = 1 / 2 ^ p" .
    have a: "(1 / 2 ^ p - 1) * 2 ^ p \<le> x * 2 ^ p"
      using assms(2) pp by (intro mult_right_mono) simp_all
    have b: "(1 / 2 ^ p - 1) * 2 ^ p = 1 - (2::real) ^ p"
      by (simp add: field_simps)
    have "real_of_int (- (2 ^ p - 1)) \<le> x / q"
      using a unfolding b by (simp add: qv)
    then have "- (2 ^ p - 1) \<le> rne (x / q)" by (rule rne_ge)
    then have "real_of_int (- (2 ^ p - 1)) \<le> real_of_int (rne (x / q))"
      by (simp only: of_int_le_iff)
    then have "real_of_int (- (2 ^ p - 1)) * q \<le> real_of_int (rne (x / q)) * q"
      using q by (simp only: mult_le_cancel_right_pos)
    moreover have "real_of_int (- (2 ^ p - 1)) * q = - 1 + 1 / 2 ^ p"
      by (simp add: qv field_simps)
    ultimately have "- 1 + 1 / 2 ^ p \<le> fl_round p x" by (simp add: fl)
    then show ?thesis using pq by linarith
  next
    case False
    with e0 have e2: "e + 1 \<le> - 1" by simp
    have qq: "2 powi (e + 1) = 2 ^ p * q"
    proof -
      have "e + 1 = int p + (e - int p + 1)" by simp
      then have "(2::real) powi (e + 1) = 2 powi (int p + (e - int p + 1))" by simp
      also have "\<dots> = 2 powi int p * 2 powi (e - int p + 1)"
        by (rule power_int_add) simp
      finally show ?thesis by (simp add: q_def power_int_of_nat)
    qed
    have "- (2 ^ p * q) < x" using b2 assms(3) by (simp add: qq)
    then have "- (2 ^ p) < x / q" using q by (simp add: field_simps)
    then have "real_of_int (- (2 ^ p)) \<le> x / q" by simp
    then have "- (2 ^ p) \<le> rne (x / q)" by (rule rne_ge)
    then have "real_of_int (- (2 ^ p)) \<le> real_of_int (rne (x / q))"
      by (simp only: of_int_le_iff)
    then have "real_of_int (- (2 ^ p)) * q \<le> real_of_int (rne (x / q)) * q"
      using q by (simp only: mult_le_cancel_right_pos)
    then have "- (2 powi (e + 1)) \<le> fl_round p x" by (simp add: fl qq)
    moreover have "(2::real) powi (e + 1) \<le> 2 powi (- 1)"
      using e2 by (rule power_int_increasing) simp
    ultimately have "- (1 / 2) \<le> fl_round p x" by simp
    then show ?thesis by simp
  qed
qed

lemma float_grid_small:
  assumes "p = 8 \<or> p = 24" and "fl_round p x = x" and "- 1 / 255 < x" and "x < 0"
  shows "- (1 - 1 / 2 ^ p) \<le> x * 255"
proof -
  have nz: "x \<noteq> 0" using assms(4) by simp
  define e where "e = \<lfloor>log 2 \<bar>x\<bar>\<rfloor>"
  have b1: "2 powi e \<le> \<bar>x\<bar>" and b2: "\<bar>x\<bar> < 2 powi (e + 1)"
    using floor_log2_bounds[OF nz] by (simp_all add: e_def)
  have "\<bar>x\<bar> < 2 powi (- 7)" using assms(3,4) by simp
  from exponent_below[OF b1 this] have e7: "e < - 7" .
  show ?thesis
  proof (cases "e = - 8")
    case True
    define k where "k = rne (x / 2 powi (e - int p + 1))"
    have x: "x = of_int k * 2 powi (- 7 - int p)"
      using assms(2) nz by (simp add: fl_round_def fl_round_at_def k_def True flip: e_def)
    from assms(1) show ?thesis
    proof
      assume p: "p = 8"
      have xk: "x = real_of_int k / 32768" using x by (simp add: p)
      then have "real_of_int (- 32768) < real_of_int (k * 255)" using assms(3) by simp
      then have "- 32768 < k * 255" by (simp only: of_int_less_iff)
      then have "- 128 \<le> k" by arith
      then have "real_of_int (- 128) \<le> real_of_int k" by (simp only: of_int_le_iff)
      then show ?thesis by (simp add: xk p)
    next
      assume p: "p = 24"
      have xk: "x = real_of_int k / 2147483648" using x by (simp add: p)
      then have "real_of_int (- 2147483648) < real_of_int (k * 255)" using assms(3) by simp
      then have "- 2147483648 < k * 255" by (simp only: of_int_less_iff)
      then have "- 8421504 \<le> k" by arith
      then have "real_of_int (- 8421504) \<le> real_of_int k" by (simp only: of_int_le_iff)
      then show ?thesis by (simp add: xk p)
    qed
  next
    case False
    with e7 have "e + 1 \<le> - 8" by simp
    then have "(2::real) powi (e + 1) \<le> 2 powi (- 8)" by (rule power_int_increasing) simp
    with b2 have "\<bar>x\<bar> < 1 / 256" by simp
    then have "- (255 / 256) < x * 255" using assms(4) by simp
    with assms(1) show ?thesis by auto
  qed
qed

lemma level_round_8:
  "list_all (\<lambda>i. fl_round 8 (fl_round 8 (real i / 255) * 255) = real i) [1..<256]"
  by (simp add: upt_conv_Cons fl_round_binade binade_exp_def fl_round_at_def rne_def Let_def)

lemma level_round_11:
  "list_all (\<lambda>i. fl_round 11 (fl_round 11 (real i / 255) * 255) = real i) [1..<256]"
  by (simp add: upt_conv_Cons fl_round_binade binade_exp_def fl_round_at_def rne_def Let_def)

lemma level_round_24:
  "list_all (\<lambda>i. fl_round 24 (fl_round 24 (real i / 255) * 255) = real i) [1..<256]"
  by (simp add: upt_conv_Cons fl_round_binade binade_exp_def fl_round_at_def rne_def Let_def)

lemma level_round_53:
  "list_all (\<lambda>i. fl_round 53 (fl_round 53 (real i / 255) * 255) = real i) [1..<256]"
  by (simp add: upt_conv_Cons fl_round_binade binade_exp_def fl_round_at_def rne_def Let_def)

lemma level_round:
  assumes "p = 8 \<or> p = 11 \<or> p = 24 \<or> p = 53" and "i \<le> 255"
  shows "fl_round p (fl_round p (real i / 255) * 255) = real i"
proof (cases "i = 0")
  case True
  then show ?thesis by (simp add: fl_round_0)
next
  case False
  with assms(2) have "i \<in> set [1..<256]" by simp
  with assms(1) level_round_8 level_round_11 level_round_24 level_round_53
  show ?thesis unfolding list_all_iff by blast
qed

subsection \<open>The rounded product\<close>

lemma fmul_fdiv_scaled: "fmul (fdiv (scaled rnd v) (Fin 255)) (Fin 255) = scaled rnd v"
  by (cases v) (simp_all add: scaled_def)

lemma color_index_unscaled: "color_index (fdiv (scaled rnd v) (Fin 255)) = color_index_r rnd v"
  by (simp add: color_index_def color_index_r_def fmul_fdiv_scaled)

lemma apply_colormap_r_reduce:
  "apply_colormap_r rnd colors img
     = apply_colormap colors (tmap (\<lambda>v. fdiv (scaled rnd v) (Fin 255)) img)"
proof -
  have eq: "tmap (\<lambda>v. fmul v (Fin 255)) (tmap (\<lambda>v. fdiv (scaled rnd v) (Fin 255)) img)
          = tmap (scaled rnd) img"
    by (simp add: tmap_def fmul_fdiv_scaled comp_def)
  show ?thesis
    unfolding apply_colormap_r_def apply_colormap_def eq by (rule refl)
qed

lemma scaled_exact: "scaled (\<lambda>y. y) v = fmul v (Fin 255)"
  by (cases v) (simp_all add: scaled_def)

lemma apply_colormap_r_exact: "apply_colormap_r (\<lambda>y. y) colors img = apply_colormap colors img"
proof -
  have eq: "scaled (\<lambda>y. y) = (\<lambda>v. fmul v (Fin 255))"
    by (rule ext) (rule scaled_exact)
  show ?thesis
    unfolding apply_colormap_r_def apply_colormap_def eq by (rule refl)
qed

lemma color_index_r_exact: "color_index_r (\<lambda>y. y) v = color_index v"
  by (simp add: color_index_r_def color_index_def scaled_exact)

lemma color_index_r_Fin: "color_index_r rnd (Fin x) = to_long (Fin (rnd (x * 255)))"
  by (simp add: color_index_r_def scaled_def)

lemma apply_colormap_r_unfold:
  assumes "valid_table colors" and "shape img = lead @ [1]"
  shows "apply_colormap_r rnd colors img =
     (if vals img = [] then Inl RuntimeError
      else if Min (set (map (color_index_r rnd) (vals img))) < 0
        then Inl (AssertMin (Min (set (map (color_index_r rnd) (vals img)))))
      else if 255 < Max (set (map (color_index_r rnd) (vals img)))
        then Inl (AssertMax (Max (set (map (color_index_r rnd) (vals img)))))
      else Inr \<lparr>shape = lead @ [3],
                vals = concat (map (\<lambda>v. map Fin (colors ! nat (color_index_r rnd v))) (vals img))\<rparr>)"
proof -
  let ?g = "\<lambda>v. fdiv (scaled rnd v) (Fin 255)"
  have s: "shape (tmap ?g img) = lead @ [1]" using assms(2) by (simp add: tmap_def)
  have v: "vals (tmap ?g img) = map ?g (vals img)" by (simp add: tmap_def)
  have m: "map color_index (map ?g (vals img)) = map (color_index_r rnd) (vals img)"
    by (simp add: color_index_unscaled)
  have c: "map (\<lambda>v. map Fin (colors ! nat (color_index v))) (map ?g (vals img))
             = map (\<lambda>v. map Fin (colors ! nat (color_index_r rnd v))) (vals img)"
    by (simp add: color_index_unscaled)
  show ?thesis
    unfolding apply_colormap_r_reduce apply_colormap_unfold[OF assms(1) s] v m c by simp
qed

lemma apply_colormap_r_Inr_iff:
  assumes "valid_table colors" and "shape img = lead @ [1]"
  shows "apply_colormap_r rnd colors img = Inr out \<longleftrightarrow>
     vals img \<noteq> []
     \<and> list_all (\<lambda>v. 0 \<le> color_index_r rnd v \<and> color_index_r rnd v \<le> 255) (vals img)
     \<and> out = \<lparr>shape = lead @ [3],
               vals = concat (map (\<lambda>v. map Fin (colors ! nat (color_index_r rnd v))) (vals img))\<rparr>"
proof -
  let ?g = "\<lambda>v. fdiv (scaled rnd v) (Fin 255)"
  have s: "shape (tmap ?g img) = lead @ [1]" using assms(2) by (simp add: tmap_def)
  have v: "vals (tmap ?g img) = map ?g (vals img)" by (simp add: tmap_def)
  have c: "map (\<lambda>v. map Fin (colors ! nat (color_index v))) (map ?g (vals img))
             = map (\<lambda>v. map Fin (colors ! nat (color_index_r rnd v))) (vals img)"
    by (simp add: color_index_unscaled)
  have l: "list_all (\<lambda>v. 0 \<le> color_index v \<and> color_index v \<le> 255) (map ?g (vals img))
             = list_all (\<lambda>v. 0 \<le> color_index_r rnd v \<and> color_index_r rnd v \<le> 255) (vals img)"
    by (simp add: list_all_iff color_index_unscaled)
  show ?thesis
    unfolding apply_colormap_r_reduce apply_colormap_Inr_iff[OF assms(1) s] v c l by simp
qed

lemma to_long_level: "i \<le> 255 \<Longrightarrow> to_long (Fin (real i)) = int i"
proof -
  assume "i \<le> 255"
  then have "- 1 < real i" "real i < 256" by simp_all
  from to_long_small(1)[OF this] show ?thesis by (simp add: trunc_def)
qed

lemma color_index_r_level:
  assumes "rnd = (\<lambda>y. y) \<or> rnd = fl_round 8 \<or> rnd = fl_round 11 \<or> rnd = fl_round 24
             \<or> rnd = fl_round 53"
    and "i \<le> 255"
  shows "color_index_r rnd (Fin (rnd (real i / 255))) = int i"
proof -
  have "rnd (rnd (real i / 255) * 255) = real i"
    using assms(1) level_round[OF _ assms(2)] by auto
  then show ?thesis
    unfolding color_index_r_Fin by (simp only: to_long_level[OF assms(2)])
qed

lemma to_long_small_negative:
  assumes "- 1 < y" and "y \<le> 0"
  shows "to_long (Fin y) = 0"
proof -
  have "y < 256" using assms(2) by simp
  from to_long_small(1)[OF assms(1) this] have "to_long (Fin y) = trunc y" .
  also have "\<dots> = 0"
  proof (cases "y = 0")
    case True
    then show ?thesis by (simp add: trunc_def)
  next
    case False
    with assms have "trunc y = \<lceil>y\<rceil>" by (simp add: trunc_def)
    also have "\<dots> = 0" using assms by (simp add: ceiling_eq_iff)
    finally show ?thesis .
  qed
  finally show ?thesis .
qed

lemma color_index_r_small_negative:
  assumes "rnd = (\<lambda>y. y) \<or> rnd = fl_round 8 \<or> rnd = fl_round 24"
    and "small_negative v" and "has_format rnd v"
  shows "color_index_r rnd v = 0"
proof -
  from assms(2) obtain x where v: "v = Fin x" and x: "- 1 / 255 < x" "x < 0"
    by (cases v) (simp_all add: small_negative_def)
  from assms(3) have r: "rnd x = x" by (simp add: has_format_def v)
  have "- 1 < rnd (x * 255) \<and> rnd (x * 255) \<le> 0"
  proof -
    consider "rnd = (\<lambda>y. y)" | p where "p = 8 \<or> p = 24" "rnd = fl_round p"
      using assms(1) by auto
    then show ?thesis
    proof cases
      case 1
      then show ?thesis using x by simp
    next
      case 2
      have g: "- (1 - 1 / 2 ^ p) \<le> x * 255"
        using float_grid_small[OF 2(1) _ x] r 2(2) by simp
      have p: "0 < p" using 2(1) by auto
      have n: "x * 255 \<le> 0" using x(2) by simp
      show ?thesis
        using fl_round_gt_minus_one[OF p g n] fl_round_nonpos[OF n, of p] by (simp add: 2(2))
    qed
  qed
  then show ?thesis
    unfolding v color_index_r_Fin by (intro to_long_small_negative) simp_all
qed

lemma ulp_scaled:
  assumes "0 < p"
  shows "(2::real) powi e = 2 ^ (p - 1) * 2 powi (e - int p + 1)"
proof -
  have "e = int (p - 1) + (e - int p + 1)" using assms by simp
  then have "(2::real) powi e = 2 powi (int (p - 1) + (e - int p + 1))" by simp
  also have "\<dots> = 2 powi int (p - 1) * 2 powi (e - int p + 1)"
    by (rule power_int_add) simp
  finally show ?thesis by (simp only: power_int_of_nat)
qed

lemma fl_round_ge_power:
  assumes "0 < p" and "2 powi m \<le> y"
  shows "2 powi m \<le> fl_round p y"
proof -
  have mp: "(0::real) < 2 powi m" by (simp add: zero_less_power_int)
  with assms(2) have pos: "0 < y" by linarith
  then have nz: "y \<noteq> 0" and ab: "\<bar>y\<bar> = y" by simp_all
  define e where "e = \<lfloor>log 2 \<bar>y\<bar>\<rfloor>"
  define q :: real where "q = 2 powi (e - int p + 1)"
  have b1: "2 powi e \<le> y" and b2: "y < 2 powi (e + 1)"
    using floor_log2_bounds[OF nz] by (simp_all add: e_def ab)
  have q: "0 < q" by (simp add: q_def zero_less_power_int)
  have fl: "fl_round p y = of_int (rne (y / q)) * q"
    using nz by (simp add: fl_round_def fl_round_at_def q_def e_def)
  have eq: "(2::real) powi e = 2 ^ (p - 1) * q"
    unfolding q_def by (rule ulp_scaled[OF assms(1)])
  from exponent_below[OF assms(2) b2] have "m \<le> e" by simp
  then have me: "(2::real) powi m \<le> 2 powi e" by (rule power_int_increasing) simp
  have "2 ^ (p - 1) * q \<le> y" using b1 by (simp only: eq)
  then have "2 ^ (p - 1) \<le> y / q" using q by (simp add: field_simps)
  then have "real_of_int (2 ^ (p - 1)) \<le> y / q" by simp
  then have "2 ^ (p - 1) \<le> rne (y / q)" by (rule rne_ge)
  then have "real_of_int (2 ^ (p - 1)) \<le> real_of_int (rne (y / q))"
    by (simp only: of_int_le_iff)
  then have "real_of_int (2 ^ (p - 1)) * q \<le> real_of_int (rne (y / q)) * q"
    using q by (simp only: mult_le_cancel_right_pos)
  then have "2 powi e \<le> fl_round p y" by (simp add: fl eq)
  with me show ?thesis by linarith
qed

lemma fl_round_le_minus_power:
  assumes "0 < p" and "y \<le> - (2 powi m)"
  shows "fl_round p y \<le> - (2 powi m)"
proof -
  have mp: "(0::real) < 2 powi m" by (simp add: zero_less_power_int)
  with assms(2) have neg: "y < 0" by linarith
  then have nz: "y \<noteq> 0" and ab: "\<bar>y\<bar> = - y" by simp_all
  define e where "e = \<lfloor>log 2 \<bar>y\<bar>\<rfloor>"
  define q :: real where "q = 2 powi (e - int p + 1)"
  have b1: "2 powi e \<le> - y" and b2: "- y < 2 powi (e + 1)"
    using floor_log2_bounds[OF nz] by (simp_all add: e_def ab)
  have q: "0 < q" by (simp add: q_def zero_less_power_int)
  have fl: "fl_round p y = of_int (rne (y / q)) * q"
    using nz by (simp add: fl_round_def fl_round_at_def q_def e_def)
  have eq: "(2::real) powi e = 2 ^ (p - 1) * q"
    unfolding q_def by (rule ulp_scaled[OF assms(1)])
  have "2 powi m \<le> - y" using assms(2) by linarith
  from exponent_below[OF this b2] have "m \<le> e" by simp
  then have me: "(2::real) powi m \<le> 2 powi e" by (rule power_int_increasing) simp
  have "2 ^ (p - 1) * q \<le> - y" using b1 by (simp only: eq)
  then have "y / q \<le> - (2 ^ (p - 1))" using q by (simp add: field_simps)
  then have "y / q \<le> real_of_int (- (2 ^ (p - 1)))" by simp
  then have "rne (y / q) \<le> - (2 ^ (p - 1))" by (rule rne_le)
  then have "real_of_int (rne (y / q)) \<le> real_of_int (- (2 ^ (p - 1)))"
    by (simp only: of_int_le_iff)
  then have "real_of_int (rne (y / q)) * q \<le> real_of_int (- (2 ^ (p - 1))) * q"
    using q by (simp only: mult_le_cancel_right_pos)
  then have "fl_round p y \<le> - (2 powi e)" by (simp add: fl eq)
  with me show ?thesis by linarith
qed

lemma rounded_outside:
  assumes "rnd = (\<lambda>y. y) \<or> rnd = fl_round 8 \<or> rnd = fl_round 11 \<or> rnd = fl_round 24
             \<or> rnd = fl_round 53"
    and "y \<le> - 1 \<or> 256 \<le> y"
  shows "rnd y \<le> - 1 \<or> 256 \<le> rnd y"
proof -
  have "(0::nat) < 8" and "(0::nat) < 11" and "(0::nat) < 24" and "(0::nat) < 53"
    by simp_all
  with assms(1) consider "rnd = (\<lambda>y. y)" | p where "0 < p" "rnd = fl_round p"
    by blast
  then show ?thesis
  proof cases
    case 1
    then show ?thesis using assms(2) by simp
  next
    case 2
    from assms(2) show ?thesis
    proof
      assume "y \<le> - 1"
      then have "y \<le> - (2 powi 0)" by simp
      from fl_round_le_minus_power[OF 2(1) this] show ?thesis by (simp add: 2(2))
    next
      assume "256 \<le> y"
      then have "2 powi 8 \<le> y" by simp
      from fl_round_ge_power[OF 2(1) this] show ?thesis by (simp add: 2(2))
    qed
  qed
qed

lemma color_index_r_outside:
  assumes "rnd = (\<lambda>y. y) \<or> rnd = fl_round 8 \<or> rnd = fl_round 11 \<or> rnd = fl_round 24
             \<or> rnd = fl_round 53"
    and "x * 255 \<le> - 1 \<or> 256 \<le> x * 255"
  shows "color_index_r rnd (Fin x) < 0 \<or> 255 < color_index_r rnd (Fin x)"
proof -
  have "rnd (x * 255) / 255 * 255 \<le> - 1 \<or> 256 \<le> rnd (x * 255) / 255 * 255"
    using rounded_outside[OF assms] by simp
  from color_index_outside[OF this] show ?thesis
    by (simp add: color_index_Fin color_index_r_Fin)
qed

section \<open>The range assertions of apply_colormap\<close>

text \<open>
  Claim C2, as amended. The assertions test the truncated indices, not the scaled
  values: for a colour table of 256 RGB rows and an image of shape \<open>[..., 1]\<close>, in
  bfloat16, float16, float32 or float64 (or in exact arithmetic, \<open>rnd\<close> the identity),
  \<^verbatim>\<open>apply_colormap\<close> fails with an assertion error whenever some finite entry \<open>x\<close>
  has \<open>x * 255 \<le> -1\<close> or \<open>256 \<le> x * 255\<close>. The error reports the minimum index
  when that is negative, and the maximum index otherwise.
\<close>

theorem apply_colormap_rejects:
  assumes "valid_table colors" and "shape img = lead @ [1]"
    and "rnd = (\<lambda>y. y) \<or> rnd = fl_round 8 \<or> rnd = fl_round 11 \<or> rnd = fl_round 24
           \<or> rnd = fl_round 53"
    and "Fin x \<in> set (vals img)" and "x * 255 \<le> - 1 \<or> 256 \<le> x * 255"
  shows "apply_colormap_r rnd colors img =
           (if Min (set (map (color_index_r rnd) (vals img))) < 0
            then Inl (AssertMin (Min (set (map (color_index_r rnd) (vals img)))))
            else Inl (AssertMax (Max (set (map (color_index_r rnd) (vals img))))))
         \<and> (Min (set (map (color_index_r rnd) (vals img))) < 0
              \<or> 255 < Max (set (map (color_index_r rnd) (vals img))))"
proof -
  let ?idx = "map (color_index_r rnd) (vals img)"
  have ne: "vals img \<noteq> []" using assms(4) by auto
  have mem: "color_index_r rnd (Fin x) \<in> set ?idx" using assms(4) by auto
  have fin: "finite (set ?idx)" by simp
  from color_index_r_outside[OF assms(3,5)]
  have out: "Min (set ?idx) < 0 \<or> 255 < Max (set ?idx)"
  proof
    assume "color_index_r rnd (Fin x) < 0"
    moreover have "Min (set ?idx) \<le> color_index_r rnd (Fin x)" using mem fin by (rule_tac Min_le)
    ultimately show ?thesis by linarith
  next
    assume "255 < color_index_r rnd (Fin x)"
    moreover have "color_index_r rnd (Fin x) \<le> Max (set ?idx)" using mem fin by (rule_tac Max_ge)
    ultimately show ?thesis by linarith
  qed
  show ?thesis
    unfolding apply_colormap_r_unfold[OF assms(1,2)] using ne out by (simp only: if_False if_True split: if_splits) auto
qed

text \<open>The theorem at the float32 image \<open>[[2.0]]\<close>: the maximum index 510 is reported.\<close>

theorem apply_colormap_rejects_witness:
  "valid_table gray_table \<and> Fin 2 \<in> set [Fin 2 :: fval] \<and> (256::real) \<le> 2 * 255
   \<and> apply_colormap_r (fl_round 24) gray_table \<lparr>shape = [1, 1], vals = [Fin 2]\<rparr>
       = Inl (AssertMax 510)"
proof -
  have r: "fl_round 24 510 = 510"
    by (subst fl_round_at_eq[of 8]) (simp_all add: fl_round_at_def rne_def Let_def)
  have c: "color_index_r (fl_round 24) (Fin 2) = 510"
    by (simp add: color_index_r_Fin r trunc_def INT64_MIN_def INT64_MAX_def)
  show ?thesis
    using apply_colormap_rejects[of gray_table "\<lparr>shape = [1, 1], vals = [Fin 2]\<rparr>" "[1]"
        "fl_round 24" 2]
    by (simp add: valid_gray_table c)
qed

text \<open>
  Claim C2 as stated fails: the entry \<open>1 + 1/256\<close> scales to \<open>255.996\<close>, above 255,
  and the entry \<open>-1/256\<close> scales to a negative value; both calls return a colour
  (rows 255 and 0 of the table) instead of failing. Both entries are float32 numbers
  and both products are exact in float32, so the float32 runs return the same.
\<close>

theorem apply_colormap_accepts_truncated_counterexample:
  "(255::real) < (1 + 1 / 256) * 255
   \<and> apply_colormap gray_table \<lparr>shape = [1, 1], vals = [Fin (1 + 1 / 256)]\<rparr>
       = Inr \<lparr>shape = [1, 3], vals = [Fin 1, Fin 1, Fin 1]\<rparr>
   \<and> (- 1 / 256 :: real) * 255 < 0
   \<and> apply_colormap gray_table \<lparr>shape = [1, 1], vals = [Fin (- 1 / 256)]\<rparr>
       = Inr \<lparr>shape = [1, 3], vals = [Fin 0, Fin 0, Fin 0]\<rparr>
   \<and> list_all (has_format (fl_round 24)) [Fin (1 + 1 / 256), Fin (- 1 / 256)]
   \<and> apply_colormap_r (fl_round 24) gray_table \<lparr>shape = [1, 1], vals = [Fin (1 + 1 / 256)]\<rparr>
       = Inr \<lparr>shape = [1, 3], vals = [Fin 1, Fin 1, Fin 1]\<rparr>
   \<and> apply_colormap_r (fl_round 24) gray_table \<lparr>shape = [1, 1], vals = [Fin (- 1 / 256)]\<rparr>
       = Inr \<lparr>shape = [1, 3], vals = [Fin 0, Fin 0, Fin 0]\<rparr>"
proof -
  note ev = fl_round_binade binade_exp_def fl_round_at_def rne_def Let_def
  have c1: "color_index (Fin (257 / 256)) = 255"
    by (simp add: color_index_def trunc_def INT64_MIN_def INT64_MAX_def)
  have c2: "color_index (Fin (- (1 / 256))) = 0"
    by (simp add: color_index_def trunc_def INT64_MIN_def INT64_MAX_def)
  have d1: "color_index_r (fl_round 24) (Fin (257 / 256)) = 255"
    by (simp add: color_index_r_Fin ev trunc_def INT64_MIN_def INT64_MAX_def)
  have d2: "color_index_r (fl_round 24) (Fin (- (1 / 256))) = 0"
    by (simp add: color_index_r_Fin ev trunc_def INT64_MIN_def INT64_MAX_def)
  have f: "list_all (has_format (fl_round 24)) [Fin (1 + 1 / 256), Fin (- 1 / 256)]"
    by (simp add: has_format_def ev)
  have e: "(255::real) < (1 + 1 / 256) * 255
   \<and> apply_colormap gray_table \<lparr>shape = [1, 1], vals = [Fin (1 + 1 / 256)]\<rparr>
       = Inr \<lparr>shape = [1, 3], vals = [Fin 1, Fin 1, Fin 1]\<rparr>
   \<and> (- 1 / 256 :: real) * 255 < 0
   \<and> apply_colormap gray_table \<lparr>shape = [1, 1], vals = [Fin (- 1 / 256)]\<rparr>
       = Inr \<lparr>shape = [1, 3], vals = [Fin 0, Fin 0, Fin 0]\<rparr>"
    by (simp add: apply_colormap_unfold[OF valid_gray_table, of _ "[1]"] c1 c2 gray_table_nth)
  have r: "apply_colormap_r (fl_round 24) gray_table \<lparr>shape = [1, 1], vals = [Fin (1 + 1 / 256)]\<rparr>
       = Inr \<lparr>shape = [1, 3], vals = [Fin 1, Fin 1, Fin 1]\<rparr>
   \<and> apply_colormap_r (fl_round 24) gray_table \<lparr>shape = [1, 1], vals = [Fin (- 1 / 256)]\<rparr>
       = Inr \<lparr>shape = [1, 3], vals = [Fin 0, Fin 0, Fin 0]\<rparr>"
    by (simp add: apply_colormap_r_unfold[OF valid_gray_table, of _ "[1]"] d1 d2 gray_table_nth)
  from e f r show ?thesis by (elim conjE) (intro conjI; assumption)
qed

section \<open>The colours apply_colormap selects\<close>

text \<open>
  Claim C4. For a colour table of 256 RGB rows and an image of shape \<open>[..., 1]\<close> in
  bfloat16, float16, float32 or float64 (or in exact arithmetic, \<open>rnd\<close> the identity):
  when \<^verbatim>\<open>apply_colormap\<close> returns and entry \<open>k\<close> of the image is \<open>i / 255\<close> rounded to
  the format, with \<open>i \<le> 255\<close>, pixel \<open>k\<close> of the result is row \<open>i\<close> of the table. The
  entry is the float nearest to \<open>i / 255\<close>, and the product of line 22 is rounded again:
  the rounded product is exactly \<open>i\<close> for every level and each of the four formats.
\<close>

theorem apply_colormap_level:
  assumes "valid_table colors" and "shape img = lead @ [1]"
    and "rnd = (\<lambda>y. y) \<or> rnd = fl_round 8 \<or> rnd = fl_round 11 \<or> rnd = fl_round 24
           \<or> rnd = fl_round 53"
    and "apply_colormap_r rnd colors img = Inr out"
    and "k < length (vals img)" and "vals img ! k = Fin (rnd (real i / 255))" and "i \<le> 255"
  shows "pixel out k = map Fin (colors ! i)"
proof -
  let ?f = "\<lambda>v. map Fin (colors ! nat (color_index_r rnd v))"
  from assms(4)
  have rng: "list_all (\<lambda>v. 0 \<le> color_index_r rnd v \<and> color_index_r rnd v \<le> 255) (vals img)"
    and out: "out = \<lparr>shape = lead @ [3], vals = concat (map ?f (vals img))\<rparr>"
    unfolding apply_colormap_r_Inr_iff[OF assms(1,2)] by simp_all
  have len: "list_all (\<lambda>r. length r = 3) (map ?f (vals img))"
    using rng table_row_length[OF assms(1)] by (auto simp: list_all_iff)
  have "pixel out k = map ?f (vals img) ! k"
    unfolding out using len assms(5) by (intro pixel_of_rows) simp_all
  also have "\<dots> = ?f (Fin (rnd (real i / 255)))" using assms(5,6) by simp
  also have "\<dots> = map Fin (colors ! i)"
    using color_index_r_level[OF assms(3,7)] by simp
  finally show ?thesis .
qed

text \<open>
  The theorem at a float32 image and the grey table, pixel 0: the float32 nearest to
  \<open>127 / 255\<close> is \<open>16711423 / 2 ^ 25\<close>, which is not \<open>127 / 255\<close>.
\<close>

theorem apply_colormap_level_witness:
  "valid_table gray_table \<and> (127::nat) \<le> 255
   \<and> fl_round 24 (127 / 255) = 16711423 / 33554432
   \<and> apply_colormap_r (fl_round 24) gray_table
        \<lparr>shape = [2, 1], vals = [Fin (16711423 / 33554432), Fin 1]\<rparr>
      = Inr \<lparr>shape = [2, 3], vals = [Fin (127 / 255), Fin (127 / 255), Fin (127 / 255), Fin 1, Fin 1, Fin 1]\<rparr>
   \<and> pixel \<lparr>shape = [2, 3], vals = [Fin (127 / 255), Fin (127 / 255), Fin (127 / 255), Fin 1, Fin 1, Fin 1]\<rparr> 0
      = map Fin (gray_table ! 127)"
proof -
  have v: "fl_round 24 (127 / 255) = 16711423 / 33554432"
    by (simp add: fl_round_binade binade_exp_def fl_round_at_def rne_def Let_def)
  have c1: "color_index_r (fl_round 24) (Fin (16711423 / 33554432)) = 127"
    using color_index_r_level[of "fl_round 24" 127] by (simp add: v)
  have c2: "color_index_r (fl_round 24) (Fin 1) = 255"
    using color_index_r_level[of "fl_round 24" 255]
    by (simp add: fl_round_binade binade_exp_def fl_round_at_def rne_def Let_def)
  have run: "apply_colormap_r (fl_round 24) gray_table
        \<lparr>shape = [2, 1], vals = [Fin (16711423 / 33554432), Fin 1]\<rparr>
      = Inr \<lparr>shape = [2, 3], vals = [Fin (127 / 255), Fin (127 / 255), Fin (127 / 255), Fin 1, Fin 1, Fin 1]\<rparr>"
    by (simp add: apply_colormap_r_unfold[OF valid_gray_table, of _ "[2]"] c1 c2 gray_table_nth)
  show ?thesis
    using apply_colormap_level[OF valid_gray_table _ _ run, of "[2]" 0 127] run
    by (simp add: valid_gray_table v)
qed


text \<open>
  Claim C5, as amended. For a colour table of 256 RGB rows and a non-empty image of
  shape \<open>lead @ [1]\<close> with all values in \<open>[0, 1]\<close>, \<^verbatim>\<open>apply_colormap\<close> returns an
  image of shape \<open>lead @ [3]\<close>, with three values for each input value.
\<close>

theorem apply_colormap_shape:
  assumes "valid_table colors" and "shape img = lead @ [1]"
    and "vals img \<noteq> []" and "list_all in_unit (vals img)"
  shows "\<exists>out. apply_colormap colors img = Inr out \<and> shape out = lead @ [3]
           \<and> butlast (shape out) = butlast (shape img) \<and> last (shape out) = 3
           \<and> length (vals out) = length (vals img) * 3"
proof -
  let ?f = "\<lambda>v. map Fin (colors ! nat (color_index v))"
  let ?out = "\<lparr>shape = lead @ [3], vals = concat (map ?f (vals img))\<rparr>"
  have rng: "list_all (\<lambda>v. 0 \<le> color_index v \<and> color_index v \<le> 255) (vals img)"
    using assms(4) color_index_in_unit by (auto simp: list_all_iff)
  then have run: "apply_colormap colors img = Inr ?out"
    unfolding apply_colormap_Inr_iff[OF assms(1,2)] using assms(3) by simp
  have len: "list_all (\<lambda>r. length r = 3) (map ?f (vals img))"
    using rng table_row_length[OF assms(1)] by (auto simp: list_all_iff)
  have "length (vals ?out) = length (vals img) * 3"
    using length_concat_rows[OF len] by simp
  with run assms(2) show ?thesis by simp
qed


text \<open>The theorem at the image \<open>[[0], [1/2], [1]]\<close>.\<close>

theorem apply_colormap_shape_witness:
  "valid_table gray_table \<and> list_all in_unit [Fin 0, Fin (1 / 2), Fin 1]
   \<and> (\<exists>out. apply_colormap gray_table \<lparr>shape = [3, 1], vals = [Fin 0, Fin (1 / 2), Fin 1]\<rparr> = Inr out
         \<and> shape out = [3, 3] \<and> length (vals out) = 9)"
  using apply_colormap_shape[of gray_table "\<lparr>shape = [3, 1], vals = [Fin 0, Fin (1 / 2), Fin 1]\<rparr>" "[3]"]
  by (auto simp add: valid_gray_table in_unit_def)


text \<open>
  Claim C5 as stated fails on the empty image of shape \<open>[0, 1]\<close>: all its values are
  in \<open>[0, 1]\<close>, and \<^verbatim>\<open>torch.min\<close> of line 23 raises on it.
\<close>

theorem apply_colormap_empty_counterexample:
  "shape \<lparr>shape = [0, 1], vals = [] :: fval list\<rparr> = [0] @ [1]
   \<and> wf_tensor \<lparr>shape = [0, 1], vals = [] :: fval list\<rparr>
   \<and> list_all in_unit (vals \<lparr>shape = [0, 1], vals = [] :: fval list\<rparr>)
   \<and> apply_colormap gray_table \<lparr>shape = [0, 1], vals = []\<rparr> = Inl RuntimeError"
  by (simp add: wf_tensor_def apply_colormap_unfold[OF valid_gray_table, of _ "[0]"])


text \<open>
  Claim C9, as amended. For a colour table of 256 RGB rows and a non-empty bfloat16 or
  float32 image of shape \<open>[..., 1]\<close> (or in exact arithmetic, \<open>rnd\<close> the identity) whose
  values all lie strictly between \<open>-1/255\<close> and 0, \<^verbatim>\<open>apply_colormap\<close> returns: every
  index truncates to 0, both assertions pass, and every pixel of the result is row 0
  of the table.
\<close>

theorem apply_colormap_small_negative:
  assumes "valid_table colors" and "shape img = lead @ [1]"
    and "rnd = (\<lambda>y. y) \<or> rnd = fl_round 8 \<or> rnd = fl_round 24"
    and "vals img \<noteq> []" and "list_all small_negative (vals img)"
    and "list_all (has_format rnd) (vals img)"
  shows "\<exists>out. apply_colormap_r rnd colors img = Inr out
           \<and> list_all (\<lambda>v. color_index_r rnd v = 0) (vals img)
           \<and> (\<forall>k < length (vals img). pixel out k = map Fin (colors ! 0))"
proof -
  let ?f = "\<lambda>v. map Fin (colors ! nat (color_index_r rnd v))"
  let ?out = "\<lparr>shape = lead @ [3], vals = concat (map ?f (vals img))\<rparr>"
  have z: "list_all (\<lambda>v. color_index_r rnd v = 0) (vals img)"
    using assms(5,6) color_index_r_small_negative[OF assms(3)] by (auto simp: list_all_iff)
  then have rng: "list_all (\<lambda>v. 0 \<le> color_index_r rnd v \<and> color_index_r rnd v \<le> 255) (vals img)"
    by (auto simp: list_all_iff)
  then have run: "apply_colormap_r rnd colors img = Inr ?out"
    unfolding apply_colormap_r_Inr_iff[OF assms(1,2)] using assms(4) by simp
  have len: "list_all (\<lambda>r. length r = 3) (map ?f (vals img))"
    using rng table_row_length[OF assms(1)] by (auto simp: list_all_iff)
  have "pixel ?out k = map Fin (colors ! 0)" if "k < length (vals img)" for k
  proof -
    have "pixel ?out k = map ?f (vals img) ! k"
      using len that by (intro pixel_of_rows) simp_all
    also have "\<dots> = ?f (vals img ! k)" using that by simp
    also have "color_index_r rnd (vals img ! k) = 0" using z that by (simp add: list_all_length)
    finally show ?thesis by simp
  qed
  with run z show ?thesis by blast
qed

text \<open>
  The theorem at the float32 image \<open>[[-1/256], [-65793 / 2 ^ 24]]\<close>; the second value
  is the float32 next to \<open>-1/255\<close> inside the interval.
\<close>

theorem apply_colormap_small_negative_witness:
  "valid_table gray_table
   \<and> list_all small_negative [Fin (- 1 / 256), Fin (- 65793 / 16777216)]
   \<and> list_all (has_format (fl_round 24)) [Fin (- 1 / 256), Fin (- 65793 / 16777216)]
   \<and> (\<exists>out. apply_colormap_r (fl_round 24) gray_table
               \<lparr>shape = [2, 1], vals = [Fin (- 1 / 256), Fin (- 65793 / 16777216)]\<rparr> = Inr out
         \<and> pixel out 0 = map Fin (gray_table ! 0) \<and> pixel out 1 = map Fin (gray_table ! 0))"
proof -
  have f: "list_all (has_format (fl_round 24)) [Fin (- 1 / 256), Fin (- 65793 / 16777216)]"
    by (simp add: has_format_def fl_round_binade binade_exp_def fl_round_at_def rne_def Let_def)
  have s: "list_all small_negative [Fin (- 1 / 256), Fin (- 65793 / 16777216)]"
    by (simp add: small_negative_def)
  show ?thesis
    using apply_colormap_small_negative[of gray_table
        "\<lparr>shape = [2, 1], vals = [Fin (- 1 / 256), Fin (- 65793 / 16777216)]\<rparr>" "[2]"
        "fl_round 24"] s f
    by (auto simp add: valid_gray_table)
qed

text \<open>
  Claim C9 as stated fails on three inputs whose values all lie in the interval. The
  empty image of shape \<open>[0, 1]\<close>: line 23 raises on it. The float64 image holding the
  float64 nearest to \<open>-1/255\<close>, which is \<open>-282578800148737 / 2 ^ 56\<close> and lies above
  \<open>-1/255\<close>: its product with 255 rounds to \<open>-1.0\<close>, the index is \<open>-1\<close>, and the first
  assertion fails with \<^verbatim>\<open>the min value is -1\<close>. The float16 image holding
  \<open>-257 / 2 ^ 16\<close>, in the same way.
\<close>

theorem apply_colormap_small_negative_counterexample:
  "list_all small_negative (vals \<lparr>shape = [0, 1], vals = [] :: fval list\<rparr>)
   \<and> apply_colormap_r (fl_round 24) gray_table \<lparr>shape = [0, 1], vals = []\<rparr> = Inl RuntimeError
   \<and> fl_round 53 (- 1 / 255) = - 282578800148737 / 72057594037927936
   \<and> list_all small_negative [Fin (- 282578800148737 / 72057594037927936)]
   \<and> list_all (has_format (fl_round 53)) [Fin (- 282578800148737 / 72057594037927936)]
   \<and> apply_colormap_r (fl_round 53) gray_table
        \<lparr>shape = [1, 1], vals = [Fin (- 282578800148737 / 72057594037927936)]\<rparr>
      = Inl (AssertMin (- 1))
   \<and> list_all small_negative [Fin (- 257 / 65536)]
   \<and> list_all (has_format (fl_round 11)) [Fin (- 257 / 65536)]
   \<and> apply_colormap_r (fl_round 11) gray_table \<lparr>shape = [1, 1], vals = [Fin (- 257 / 65536)]\<rparr>
      = Inl (AssertMin (- 1))"
proof -
  note ev = fl_round_binade binade_exp_def fl_round_at_def rne_def Let_def
  have e: "apply_colormap_r (fl_round 24) gray_table \<lparr>shape = [0, 1], vals = []\<rparr> = Inl RuntimeError"
    by (simp add: apply_colormap_r_unfold[OF valid_gray_table, of _ "[0]"])
  have r: "fl_round 53 (- 1 / 255) = - 282578800148737 / 72057594037927936"
    by (simp add: ev)
  have f64: "list_all (has_format (fl_round 53)) [Fin (- 282578800148737 / 72057594037927936)]"
    by (simp add: has_format_def ev)
  have f16: "list_all (has_format (fl_round 11)) [Fin (- 257 / 65536)]"
    by (simp add: has_format_def ev)
  have cm: "\<lceil>- 1 :: real\<rceil> = - 1"
    by (simp add: ceiling_eq_iff)
  have c64: "color_index_r (fl_round 53) (Fin (- (282578800148737 / 72057594037927936))) = - 1"
    by (simp add: color_index_r_Fin ev trunc_def cm INT64_MIN_def INT64_MAX_def)
  have c16: "color_index_r (fl_round 11) (Fin (- (257 / 65536))) = - 1"
    by (simp add: color_index_r_Fin ev trunc_def cm INT64_MIN_def INT64_MAX_def)
  have r64: "apply_colormap_r (fl_round 53) gray_table
        \<lparr>shape = [1, 1], vals = [Fin (- 282578800148737 / 72057594037927936)]\<rparr>
      = Inl (AssertMin (- 1))"
    by (simp add: apply_colormap_r_unfold[OF valid_gray_table, of _ "[1]"] c64)
  have r16: "apply_colormap_r (fl_round 11) gray_table \<lparr>shape = [1, 1], vals = [Fin (- 257 / 65536)]\<rparr>
      = Inl (AssertMin (- 1))"
    by (simp add: apply_colormap_r_unfold[OF valid_gray_table, of _ "[1]"] c16)
  show ?thesis
    using e r f64 f16 r64 r16 by (simp add: small_negative_def)
qed

section \<open>The planes of apply_depth_colormap\<close>

text \<open>
  Claim C3. The near plane used is the argument when it is given and truthy, and the
  minimum of the depth tensor when the argument is \<open>None\<close> or zero; the far plane
  likewise with the maximum. On a tensor of finite values \<^verbatim>\<open>torch.min\<close> and
  \<^verbatim>\<open>torch.max\<close> are the least and the greatest value. A call with a plane of
  exactly 0 is the call with that plane left out. The planes chosen are the ones the
  normalization uses: the call is \<^verbatim>\<open>apply_colormap\<close> (and the blend) on the depth with
  every element \<open>d\<close> replaced by the clipped \<open>(d - near) / (far - near + 1e-10)\<close>.
\<close>

theorem plane_choice:
  "near_plane_used depth None = torch_min depth
   \<and> near_plane_used depth (Some (Fin 0)) = torch_min depth
   \<and> (v \<noteq> Fin 0 \<longrightarrow> near_plane_used depth (Some v) = Inr v)
   \<and> far_plane_used depth None = torch_max depth
   \<and> far_plane_used depth (Some (Fin 0)) = torch_max depth
   \<and> (v \<noteq> Fin 0 \<longrightarrow> far_plane_used depth (Some v) = Inr v)
   \<and> (vals depth = map Fin (x # xs) \<longrightarrow>
        torch_min depth = Inr (Fin (Min (set (x # xs))))
        \<and> torch_max depth = Inr (Fin (Max (set (x # xs)))))
   \<and> apply_depth_colormap colors depth accumulation (Some (Fin 0)) far_plane
        = apply_depth_colormap colors depth accumulation None far_plane
   \<and> apply_depth_colormap colors depth accumulation near_plane (Some (Fin 0))
        = apply_depth_colormap colors depth accumulation near_plane None
   \<and> apply_depth_colormap colors depth accumulation near_plane far_plane
        = (case near_plane_used depth near_plane of
             Inl e \<Rightarrow> Inl e
           | Inr near \<Rightarrow>
               (case far_plane_used depth far_plane of
                  Inl e \<Rightarrow> Inl e
                | Inr far \<Rightarrow>
                    (case apply_colormap colors
                            \<lparr>shape = shape depth,
                             vals = map (\<lambda>d. fclip 0 1
                                      (fdiv (fsub d near)
                                         (fadd (fsub far near) (Fin (1 / 10 ^ 10)))))
                                      (vals depth)\<rparr> of
                       Inl e \<Rightarrow> Inl e
                     | Inr colored \<Rightarrow>
                         (case accumulation of
                            None \<Rightarrow> Inr colored
                          | Some acc \<Rightarrow> blend colored acc))))
   \<and> (near_plane_used depth near_plane = Inr (Fin n)
        \<and> far_plane_used depth far_plane = Inr (Fin f)
        \<and> f - n + 1 / 10 ^ 10 \<noteq> 0 \<and> vals depth = map Fin ys \<longrightarrow>
        apply_depth_colormap colors depth None near_plane far_plane
          = apply_colormap colors
              \<lparr>shape = shape depth,
               vals = map (\<lambda>y. Fin (min (max ((y - n) / (f - n + 1 / 10 ^ 10)) 0) 1)) ys\<rparr>)"
proof -
  have n0: "near_plane_used depth (Some (Fin 0)) = near_plane_used depth None"
    by (simp add: near_plane_used_def py_or_def truthy_def)
  have f0: "far_plane_used depth (Some (Fin 0)) = far_plane_used depth None"
    by (simp add: far_plane_used_def py_or_def truthy_def)
  have a: "apply_depth_colormap colors depth accumulation (Some (Fin 0)) far_plane
        = apply_depth_colormap colors depth accumulation None far_plane"
    unfolding apply_depth_colormap_def n0 by (rule refl)
  have b: "apply_depth_colormap colors depth accumulation near_plane (Some (Fin 0))
        = apply_depth_colormap colors depth accumulation near_plane None"
    unfolding apply_depth_colormap_def f0 by (rule refl)
  have c: "apply_depth_colormap colors depth accumulation near_plane far_plane
        = (case near_plane_used depth near_plane of
             Inl e \<Rightarrow> Inl e
           | Inr near \<Rightarrow>
               (case far_plane_used depth far_plane of
                  Inl e \<Rightarrow> Inl e
                | Inr far \<Rightarrow>
                    (case apply_colormap colors
                            \<lparr>shape = shape depth,
                             vals = map (\<lambda>d. fclip 0 1
                                      (fdiv (fsub d near)
                                         (fadd (fsub far near) (Fin (1 / 10 ^ 10)))))
                                      (vals depth)\<rparr> of
                       Inl e \<Rightarrow> Inl e
                     | Inr colored \<Rightarrow>
                         (case accumulation of
                            None \<Rightarrow> Inr colored
                          | Some acc \<Rightarrow> blend colored acc))))"
    unfolding apply_depth_colormap_def normalize_depth_explicit by (rule refl)
  have d: "apply_depth_colormap colors depth None near_plane far_plane
          = apply_colormap colors
              \<lparr>shape = shape depth,
               vals = map (\<lambda>y. Fin (min (max ((y - n) / (f - n + 1 / 10 ^ 10)) 0) 1)) ys\<rparr>"
    if "near_plane_used depth near_plane = Inr (Fin n)"
      and "far_plane_used depth far_plane = Inr (Fin f)"
      and "f - n + 1 / 10 ^ 10 \<noteq> 0" and "vals depth = map Fin ys"
    unfolding apply_depth_colormap_planes[OF that(1,2)] normalize_depth_reals[OF that(4,3)]
    by (rule refl)
  show ?thesis
    using a b c d
    by (simp add: near_plane_used_def far_plane_used_def py_or_def truthy_def
        torch_min_Fin torch_max_Fin)
qed

text \<open>The theorem at the depth \<open>[[1/2], [3/4]]\<close> with \<open>near_plane = 0\<close> and
  \<open>far_plane = 2\<close>: the minimum \<open>1/2\<close> is the near plane of the normalization.\<close>

theorem plane_choice_witness:
  "near_plane_used \<lparr>shape = [2, 1], vals = [Fin (1 / 2), Fin (3 / 4)]\<rparr> (Some (Fin 0)) = Inr (Fin (1 / 2))
   \<and> near_plane_used \<lparr>shape = [2, 1], vals = [Fin (1 / 2), Fin (3 / 4)]\<rparr> None = Inr (Fin (1 / 2))
   \<and> near_plane_used \<lparr>shape = [2, 1], vals = [Fin (1 / 2), Fin (3 / 4)]\<rparr> (Some (Fin 2)) = Inr (Fin 2)
   \<and> far_plane_used \<lparr>shape = [2, 1], vals = [Fin (1 / 2), Fin (3 / 4)]\<rparr> (Some (Fin 0)) = Inr (Fin (3 / 4))
   \<and> far_plane_used \<lparr>shape = [2, 1], vals = [Fin (1 / 2), Fin (3 / 4)]\<rparr> (Some (Fin 2)) = Inr (Fin 2)
   \<and> apply_depth_colormap gray_table \<lparr>shape = [2, 1], vals = [Fin (1 / 2), Fin (3 / 4)]\<rparr>
         None (Some (Fin 0)) (Some (Fin 2))
       = apply_colormap gray_table
           \<lparr>shape = [2, 1],
            vals = [Fin (min (max ((1 / 2 - 1 / 2) / (2 - 1 / 2 + 1 / 10 ^ 10)) 0) 1),
                    Fin (min (max ((3 / 4 - 1 / 2) / (2 - 1 / 2 + 1 / 10 ^ 10)) 0) 1)]\<rparr>"
proof -
  let ?d = "\<lparr>shape = [2, 1], vals = [Fin (1 / 2), Fin (3 / 4)]\<rparr>"
  have n: "near_plane_used ?d (Some (Fin 0)) = Inr (Fin (1 / 2))"
    by (simp add: near_plane_used_def py_or_def truthy_def torch_min_def)
  have f: "far_plane_used ?d (Some (Fin 2)) = Inr (Fin 2)"
    by (simp add: far_plane_used_def py_or_def truthy_def)
  have v: "vals ?d = map Fin [1 / 2, 3 / 4]" by simp
  have z: "(2::real) - 1 / 2 + 1 / 10 ^ 10 \<noteq> 0" by simp
  note t = plane_choice[where depth = ?d and v = "Fin 2" and x = "1 / 2" and xs = "[3 / 4]"
      and colors = gray_table and accumulation = None and near_plane = "Some (Fin 0)"
      and far_plane = "Some (Fin 2)" and n = "1 / 2" and f = 2 and ys = "[1 / 2, 3 / 4]"]
  from t n f v z
  have r: "apply_depth_colormap gray_table ?d None (Some (Fin 0)) (Some (Fin 2))
       = apply_colormap gray_table
           \<lparr>shape = shape ?d,
            vals = map (\<lambda>y. Fin (min (max ((y - 1 / 2) / (2 - 1 / 2 + 1 / 10 ^ 10)) 0) 1))
                     [1 / 2, 3 / 4]\<rparr>"
    by blast
  from t have p: "near_plane_used ?d None = torch_min ?d"
    "near_plane_used ?d (Some (Fin 2)) = Inr (Fin 2)"
    "far_plane_used ?d (Some (Fin 0)) = torch_max ?d"
    by simp_all
  have m: "torch_min ?d = Inr (Fin (1 / 2))" "torch_max ?d = Inr (Fin (3 / 4))"
    by (simp_all add: torch_min_def torch_max_def)
  show ?thesis
    using n f r p m by simp
qed

text \<open>
  Claim C1 at the depth \<open>[[1/2], [3/4]]\<close> with \<open>near_plane = 0\<close>, \<open>far_plane = 1\<close>
  and the grey table: the zero is replaced by the minimum \<open>1/2\<close>, so the call selects
  rows 0 and 127, while \<^verbatim>\<open>apply_colormap\<close> of the clipped depth selects rows 127
  and 191. The docstring promises the minimum only for \<open>None\<close>.
\<close>

theorem zero_near_plane_is_replaced:
  "apply_depth_colormap gray_table \<lparr>shape = [2, 1], vals = [Fin (1 / 2), Fin (3 / 4)]\<rparr>
       None (Some (Fin 0)) (Some (Fin 1))
     = Inr \<lparr>shape = [2, 3],
            vals = [Fin 0, Fin 0, Fin 0, Fin (127 / 255), Fin (127 / 255), Fin (127 / 255)]\<rparr>
   \<and> apply_colormap gray_table (tmap (fclip 0 1) \<lparr>shape = [2, 1], vals = [Fin (1 / 2), Fin (3 / 4)]\<rparr>)
     = Inr \<lparr>shape = [2, 3],
            vals = [Fin (127 / 255), Fin (127 / 255), Fin (127 / 255),
                    Fin (191 / 255), Fin (191 / 255), Fin (191 / 255)]\<rparr>"
proof -
  let ?d = "\<lparr>shape = [2, 1], vals = [Fin (1 / 2), Fin (3 / 4)]\<rparr>"
  have n: "near_plane_used ?d (Some (Fin 0)) = Inr (Fin (1 / 2))"
    by (simp add: near_plane_used_def py_or_def truthy_def torch_min_def)
  have f: "far_plane_used ?d (Some (Fin 1)) = Inr (Fin 1)"
    by (simp add: far_plane_used_def py_or_def truthy_def)
  have nz: "normalize_depth (Fin (1 / 2)) (Fin 1) ?d
      = \<lparr>shape = [2, 1], vals = [Fin 0, Fin (2500000000 / 5000000001)]\<rparr>"
    by (simp add: normalize_depth_def tmap_def fsub_def epsilon_def)
  have c0: "color_index (Fin 0) = 0"
    by (simp add: color_index_def trunc_def INT64_MIN_def INT64_MAX_def)
  have c1: "color_index (Fin (2500000000 / 5000000001)) = 127"
    by (simp add: color_index_def trunc_def INT64_MIN_def INT64_MAX_def)
  have c2: "color_index (Fin (1 / 2)) = 127"
    by (simp add: color_index_def trunc_def INT64_MIN_def INT64_MAX_def)
  have c3: "color_index (Fin (3 / 4)) = 191"
    by (simp add: color_index_def trunc_def INT64_MIN_def INT64_MAX_def)
  have a: "apply_depth_colormap gray_table ?d None (Some (Fin 0)) (Some (Fin 1))
     = Inr \<lparr>shape = [2, 3],
            vals = [Fin 0, Fin 0, Fin 0, Fin (127 / 255), Fin (127 / 255), Fin (127 / 255)]\<rparr>"
    unfolding apply_depth_colormap_planes[OF n f] nz
    by (simp add: apply_colormap_unfold[OF valid_gray_table, of _ "[2]"] c0 c1 gray_table_nth)
  have b: "apply_colormap gray_table (tmap (fclip 0 1) ?d)
     = Inr \<lparr>shape = [2, 3],
            vals = [Fin (127 / 255), Fin (127 / 255), Fin (127 / 255),
                    Fin (191 / 255), Fin (191 / 255), Fin (191 / 255)]\<rparr>"
    by (simp add: tmap_def apply_colormap_unfold[OF valid_gray_table, of _ "[2]"] c2 c3 gray_table_nth)
  from a b show ?thesis by simp
qed





section \<open>The accumulation mask\<close>

text \<open>
  Claim C7, as amended. For a colour table of 256 RGB rows and a depth tensor of shape
  \<open>[..., 1]\<close>: the call with a mask of ones of the depth's shape has exactly the
  outcome of the call without a mask; the call with a mask of zeros fails as the call
  without a mask fails, and otherwise returns the white image (every value 1) of the
  shape of the unmasked result.
\<close>

theorem mask_of_ones_and_zeros:
  assumes "valid_table colors" and "shape depth = lead @ [1]" and "wf_tensor depth"
  shows "apply_depth_colormap colors depth (Some (full_like depth (Fin 1))) near_plane far_plane
           = apply_depth_colormap colors depth None near_plane far_plane
         \<and> apply_depth_colormap colors depth (Some (full_like depth (Fin 0))) near_plane far_plane
           = (case apply_depth_colormap colors depth None near_plane far_plane of
                Inl e \<Rightarrow> Inl e
              | Inr colored \<Rightarrow> Inr (full_like colored (Fin 1)))"
proof -
  have wfm: "wf_tensor (full_like depth v)" and shm: "shape (full_like depth v) = lead @ [1]" for v :: fval
    using assms(2,3) by (simp_all add: full_like_def wf_tensor_def)
  have n: "length (vals depth) = prod_list lead"
    using assms(2,3) by (simp add: wf_tensor_def)
  show ?thesis
  proof (cases "apply_depth_colormap colors depth None near_plane far_plane")
    case (Inl e)
    then show ?thesis
      by (simp add: apply_depth_colormap_mask[OF assms wfm shm])
  next
    case (Inr colored)
    note f = depth_colored_facts[OF assms Inr]
    have lc: "length (vals colored) = length (vals depth) * 3"
      using f(1,2) n by (simp add: wf_tensor_def)
    have m: "map2 blend_value (vals colored) (concat (map (replicate 3) (vals (full_like depth v))))
             = map (\<lambda>c. blend_value c v) (vals colored)" for v
      by (simp add: full_like_def concat_replicate_replicate map2_replicate[OF lc])
    have one: "map (\<lambda>c. blend_value c (Fin 1)) (vals colored) = vals colored"
      by (simp add: blend_value_one)
    have "map (\<lambda>c. blend_value c (Fin 0)) (vals colored) = map (\<lambda>c. Fin 1) (vals colored)"
      using f(3) by (intro map_cong[OF refl]) (simp add: list_all_iff blend_value_zero)
    then have zero: "map (\<lambda>c. blend_value c (Fin 0)) (vals colored)
                 = replicate (length (vals colored)) (Fin 1)"
      by (simp add: map_replicate_const)
    have c: "colored = \<lparr>shape = lead @ [3], vals = vals colored\<rparr>"
      using f(2) by simp
    have w: "full_like colored (Fin 1)
              = \<lparr>shape = lead @ [3], vals = replicate (length (vals colored)) (Fin 1)\<rparr>"
      using f(2) by (simp add: full_like_def)
    have "apply_depth_colormap colors depth (Some (full_like depth (Fin 1))) near_plane far_plane
            = Inr \<lparr>shape = lead @ [3],
                   vals = map2 blend_value (vals colored)
                            (concat (map (replicate 3) (vals (full_like depth (Fin 1 :: fval)))))\<rparr>"
      by (simp add: apply_depth_colormap_mask[OF assms wfm shm] Inr)
    also have "\<dots> = Inr colored"
      unfolding m[of "Fin 1"] one using c by simp
    finally have r1: "apply_depth_colormap colors depth (Some (full_like depth (Fin 1))) near_plane far_plane
            = Inr colored" .
    have "apply_depth_colormap colors depth (Some (full_like depth (Fin 0))) near_plane far_plane
            = Inr \<lparr>shape = lead @ [3],
                   vals = map2 blend_value (vals colored)
                            (concat (map (replicate 3) (vals (full_like depth (Fin 0 :: fval)))))\<rparr>"
      by (simp add: apply_depth_colormap_mask[OF assms wfm shm] Inr)
    also have "\<dots> = Inr (full_like colored (Fin 1))"
      unfolding m[of "Fin 0"] zero w by (rule refl)
    finally have r0: "apply_depth_colormap colors depth (Some (full_like depth (Fin 0))) near_plane far_plane
            = Inr (full_like colored (Fin 1))" .
    show ?thesis
      using r1 r0 Inr by simp
  qed
qed


text \<open>The theorem at the depth \<open>[[1/2], [3/4]]\<close> with the planes \<open>-1\<close> and 1.\<close>

theorem mask_of_ones_and_zeros_witness:
  "valid_table gray_table
   \<and> wf_tensor \<lparr>shape = [2, 1], vals = [Fin (1 / 2), Fin (3 / 4)]\<rparr>
   \<and> apply_depth_colormap gray_table \<lparr>shape = [2, 1], vals = [Fin (1 / 2), Fin (3 / 4)]\<rparr>
        (Some \<lparr>shape = [2, 1], vals = [Fin 1, Fin 1]\<rparr>) (Some (Fin (- 1))) (Some (Fin 1))
       = Inr \<lparr>shape = [2, 3],
              vals = [Fin (191 / 255), Fin (191 / 255), Fin (191 / 255),
                      Fin (223 / 255), Fin (223 / 255), Fin (223 / 255)]\<rparr>
   \<and> apply_depth_colormap gray_table \<lparr>shape = [2, 1], vals = [Fin (1 / 2), Fin (3 / 4)]\<rparr>
        (Some \<lparr>shape = [2, 1], vals = [Fin 0, Fin 0]\<rparr>) (Some (Fin (- 1))) (Some (Fin 1))
       = Inr \<lparr>shape = [2, 3], vals = [Fin 1, Fin 1, Fin 1, Fin 1, Fin 1, Fin 1]\<rparr>"
proof -
  let ?d = "\<lparr>shape = [2, 1], vals = [Fin (1 / 2), Fin (3 / 4)]\<rparr>"
  have wf: "wf_tensor ?d" by (simp add: wf_tensor_def)
  have sh: "shape ?d = [2] @ [1]" by simp
  note t = mask_of_ones_and_zeros[OF valid_gray_table sh wf, of "Some (Fin (- 1))" "Some (Fin 1)",
      unfolded sample_run]
  show ?thesis
    using t wf by (simp add: full_like_def valid_gray_table)
qed


text \<open>
  Claim C7 as stated fails for the mask of zeros where the call itself fails: on a depth
  with a NaN the first assertion fails, and on the empty depth line 50 raises; neither
  call returns a white image.
\<close>

theorem mask_of_zeros_failure_counterexample:
  "apply_depth_colormap gray_table \<lparr>shape = [1, 1], vals = [NaN]\<rparr>
        (Some \<lparr>shape = [1, 1], vals = [Fin 0]\<rparr>) None None
       = Inl (AssertMin (- 9223372036854775808))
   \<and> apply_depth_colormap gray_table \<lparr>shape = [0, 1], vals = []\<rparr>
        (Some \<lparr>shape = [0, 1], vals = []\<rparr>) None None
       = Inl RuntimeError"
proof -
  let ?d = "\<lparr>shape = [1, 1], vals = [NaN]\<rparr>"
  have n: "near_plane_used ?d None = Inr NaN"
    by (simp add: near_plane_used_def py_or_def torch_min_def)
  have f: "far_plane_used ?d None = Inr NaN"
    by (simp add: far_plane_used_def py_or_def torch_max_def)
  have sh: "shape (normalize_depth NaN NaN ?d) = [1] @ [1]"
    by (simp add: shape_normalize)
  have v: "map color_index (vals (normalize_depth NaN NaN ?d)) = [- 9223372036854775808]"
    by (simp add: vals_normalize fsub_def color_index_def INT64_MIN_def)
  have a: "apply_colormap gray_table (normalize_depth NaN NaN ?d)
             = Inl (AssertMin (- 9223372036854775808))"
    unfolding apply_colormap_by_index[OF valid_gray_table sh v] by simp
  have none: "apply_depth_colormap gray_table ?d None None None
       = Inl (AssertMin (- 9223372036854775808))"
    unfolding apply_depth_colormap_planes[OF n f] by (rule a)
  have shd: "shape ?d = [1] @ [1]" "shape \<lparr>shape = [1, 1], vals = [Fin 0]\<rparr> = [1] @ [1]"
    by simp_all
  have wfd: "wf_tensor ?d" "wf_tensor \<lparr>shape = [1, 1], vals = [Fin 0]\<rparr>"
    by (simp_all add: wf_tensor_def)
  have 1: "apply_depth_colormap gray_table ?d (Some \<lparr>shape = [1, 1], vals = [Fin 0]\<rparr>) None None
       = Inl (AssertMin (- 9223372036854775808))"
    unfolding apply_depth_colormap_mask[OF valid_gray_table shd(1) wfd(1) wfd(2) shd(2)] none
    by simp
  have 2: "apply_depth_colormap gray_table \<lparr>shape = [0, 1], vals = []\<rparr>
        (Some \<lparr>shape = [0, 1], vals = []\<rparr>) None None = Inl RuntimeError"
    unfolding apply_depth_colormap_def near_plane_used_def py_or_def torch_min_def by simp
  from 1 2 show ?thesis by simp
qed





section \<open>The arguments are not changed\<close>

text \<open>
  Claim C8. In a store \<open>s\<close> that holds the arguments, a call of \<^verbatim>\<open>apply_colormap\<close> or
  of \<^verbatim>\<open>apply_depth_colormap\<close>, whether it returns or fails, leaves every tensor of
  \<open>s\<close> as it was, in particular the image, the depth and the accumulation mask; the
  address a call returns is a new one, outside \<open>s\<close>.
\<close>

theorem inputs_not_mutated:
  assumes "img < length s" and "depth < length s"
    and "case accumulation of None \<Rightarrow> True | Some a \<Rightarrow> a < length s"
  shows "take (length s) (snd (st_apply_colormap s colors img)) = s
     \<and> snd (st_apply_colormap s colors img) ! img = s ! img
     \<and> (\<forall>r. fst (st_apply_colormap s colors img) = Inr r \<longrightarrow>
            length s \<le> r \<and> r < length (snd (st_apply_colormap s colors img)))
     \<and> take (length s)
          (snd (st_apply_depth_colormap s colors depth accumulation near_plane far_plane)) = s
     \<and> snd (st_apply_depth_colormap s colors depth accumulation near_plane far_plane) ! depth
          = s ! depth
     \<and> (\<forall>a. accumulation = Some a \<longrightarrow>
            snd (st_apply_depth_colormap s colors depth accumulation near_plane far_plane) ! a
              = s ! a)
     \<and> (\<forall>r. fst (st_apply_depth_colormap s colors depth accumulation near_plane far_plane) = Inr r
            \<longrightarrow> length s \<le> r
              \<and> r < length (snd (st_apply_depth_colormap s colors depth accumulation
                                    near_plane far_plane)))"
proof -
  let ?R = "st_apply_colormap s colors img"
  let ?D = "st_apply_depth_colormap s colors depth accumulation near_plane far_plane"
  from st_apply_colormap_ext[OF assms(1), of colors] obtain ext where
    "?R = (case apply_colormap colors (s ! img) of
             Inl e \<Rightarrow> (Inl e, s @ ext)
           | Inr colored \<Rightarrow> (Inr (length s + length ext), s @ ext @ [colored]))" ..
  note r = store_extension[OF this]
  from st_apply_depth_colormap_eq[OF assms(2,3), of colors near_plane far_plane] obtain ext' where
    "?D = (case apply_depth_colormap colors (s ! depth) (map_option ((!) s) accumulation)
                 near_plane far_plane of
             Inl e \<Rightarrow> (Inl e, s @ ext')
           | Inr colored \<Rightarrow> (Inr (length s + length ext'), s @ ext' @ [colored]))" ..
  note d = store_extension[OF this]
  have keep: "s' ! a = s ! a" if "take (length s) s' = s" and "a < length s" for s' a
  proof -
    have "s' ! a = take (length s) s' ! a" using that(2) by simp
    then show ?thesis using that(1) by simp
  qed
  have "snd ?R ! img = s ! img" by (rule keep[OF r(1) assms(1)])
  moreover have "snd ?D ! depth = s ! depth" by (rule keep[OF d(1) assms(2)])
  moreover have "\<forall>a. accumulation = Some a \<longrightarrow> snd ?D ! a = s ! a"
    using assms(3) keep[OF d(1)] by auto
  ultimately show ?thesis using r(1,2) d(1,2) by blast
qed


text \<open>The theorem on a store of a depth and a mask, both passed to the calls.\<close>

theorem inputs_not_mutated_witness:
  "(0::nat) < length [\<lparr>shape = [2, 1], vals = [Fin (1 / 2), Fin (3 / 4)]\<rparr>,
                      \<lparr>shape = [2, 1], vals = [Fin 0, Fin (1 / 2)]\<rparr>]
   \<and> (1::nat) < length [\<lparr>shape = [2, 1], vals = [Fin (1 / 2), Fin (3 / 4)]\<rparr>,
                      \<lparr>shape = [2, 1], vals = [Fin 0, Fin (1 / 2)]\<rparr>]
   \<and> take 2 (snd (st_apply_colormap
                [\<lparr>shape = [2, 1], vals = [Fin (1 / 2), Fin (3 / 4)]\<rparr>,
                 \<lparr>shape = [2, 1], vals = [Fin 0, Fin (1 / 2)]\<rparr>] gray_table 0))
       = [\<lparr>shape = [2, 1], vals = [Fin (1 / 2), Fin (3 / 4)]\<rparr>,
          \<lparr>shape = [2, 1], vals = [Fin 0, Fin (1 / 2)]\<rparr>]
   \<and> take 2 (snd (st_apply_depth_colormap
                [\<lparr>shape = [2, 1], vals = [Fin (1 / 2), Fin (3 / 4)]\<rparr>,
                 \<lparr>shape = [2, 1], vals = [Fin 0, Fin (1 / 2)]\<rparr>] gray_table 0 (Some 1) None None))
       = [\<lparr>shape = [2, 1], vals = [Fin (1 / 2), Fin (3 / 4)]\<rparr>,
          \<lparr>shape = [2, 1], vals = [Fin 0, Fin (1 / 2)]\<rparr>]"
  using inputs_not_mutated[of 0 "[\<lparr>shape = [2, 1], vals = [Fin (1 / 2), Fin (3 / 4)]\<rparr>,
                 \<lparr>shape = [2, 1], vals = [Fin 0, Fin (1 / 2)]\<rparr>]" 0 "Some 1" gray_table None None]
  by (simp add: numeral_2_eq_2)

end
